theory Spec2Isabelle
  imports Main "HOL-Library.List_Lexorder" "HOL-Library.Sublist"
begin

text \<open>
  A model of \<open>app.py\<close>, the PrepClass mentor application: the credential store and the
  history store over the SQLite files, the session state and the handlers of the main
  page, and the two export functions.
\<close>

section \<open>Python strings\<close>

text \<open>
  A Python \<open>str\<close> is the list of its code points; every code point of a \<open>str\<close> is
  below \<open>0x110000\<close>. A \<open>str\<close> can hold surrogate code points (\<open>U+D800\<close> to \<open>U+DFFF\<close>),
  which have no UTF-8 encoding. Bytes are numbers below 256.
\<close>

type_synonym str = "nat list"

definition is_str :: "nat list \<Rightarrow> bool" where
  "is_str s = list_all (\<lambda>c. c < 0x110000) s"

definition surrogate :: "nat \<Rightarrow> bool" where
  "surrogate c = (0xD800 \<le> c \<and> c \<le> 0xDFFF)"

text \<open>A string without surrogate code points: the strings that UTF-8 can encode.\<close>

definition scalar_values :: "nat list \<Rightarrow> bool" where
  "scalar_values s = list_all (\<lambda>c. c < 0x110000 \<and> \<not> surrogate c) s"

text \<open>A string literal of the program, such as \<open>'prepclass.db'\<close>.\<close>

definition lit :: "string \<Rightarrow> str" where
  "lit s = map of_char s"

section \<open>Exceptions as values\<close>

text \<open>
  Every exception that can leave one of the modelled functions is a value of \<open>error\<close>;
  a function that can raise returns \<open>error + 'a\<close> with \<open>Inl\<close> for the exception.
  \<open>OperationalError\<close> and \<open>IntegrityError\<close> are sqlite3's (a missing table, a violated
  PRIMARY KEY), \<open>PasslibError\<close> is any exception of the password-hashing library,
  \<open>ApiError\<close> any exception of the completion client.
\<close>

datatype error =
    OperationalError
  | IntegrityError
  | KeyError
  | ValueError
  | UnicodeEncodeError
  | UnicodeDecodeError
  | PasslibError
  | ApiError

section \<open>The database files\<close>

text \<open>
  The two tables of \<open>init_db\<close>. A table that has not been created is \<open>None\<close>. The rows
  of a table are kept in rowid order. \<open>history_seq\<close> is the AUTOINCREMENT counter of the
  history table (the largest id ever handed out). A history row carries the five columns
  that \<open>load_history_from_db\<close> returns as one dictionary, so it extends that record by the
  id, the user name and the topic.
\<close>

record history_entry =
  difficulty :: str
  timestamp :: str
  pre_class :: str
  in_class :: str
  post_class :: str

record history_row = history_entry +
  id_col :: nat
  username :: str
  topic :: str

record database =
  users_table :: "(str \<times> str) list option"
  history_table :: "history_row list option"
  history_seq :: nat

text \<open>
  \<open>sqlite3.connect(path)\<close> opens the file at \<open>path\<close> and creates it when it is missing;
  a missing file and a database without tables behave alike, so the file system maps every
  path to a database and a path never written holds \<open>no_tables\<close>.
\<close>

definition no_tables :: database where
  "no_tables = \<lparr>users_table = None, history_table = None, history_seq = 0\<rparr>"

type_synonym filesystem = "str \<Rightarrow> database"

definition fresh_disk :: filesystem where
  "fresh_disk = (\<lambda>path. no_tables)"

text \<open>
  \<open>c.execute(sql, parameters)\<close> prepares the statement first, which raises
  OperationalError for a table that does not exist, and then binds the parameters: each
  \<open>str\<close> is handed over in UTF-8, and one that holds a surrogate raises
  UnicodeEncodeError. Only then the statement runs.
\<close>

definition bindable :: "str list \<Rightarrow> bool" where
  "bindable parameters = list_all scalar_values parameters"

subsection \<open>get_db_path and init_db\<close>

text \<open>\<open>cwd\<close> is the value of \<open>os.getcwd()\<close>; Python's \<open>in\<close> on strings is the substring test.\<close>

definition get_db_path :: "str \<Rightarrow> str" where
  "get_db_path cwd =
     (if sublist (lit ''streamlit'') cwd then lit ''/tmp/prepclass.db'' else lit ''prepclass.db'')"

text \<open>CREATE TABLE IF NOT EXISTS leaves an existing table as it is.\<close>

definition create_table_if_not_exists :: "'a list option \<Rightarrow> 'a list option" where
  "create_table_if_not_exists t = (case t of None \<Rightarrow> Some [] | Some rows \<Rightarrow> Some rows)"

definition init_db :: "str \<Rightarrow> filesystem \<Rightarrow> filesystem" where
  "init_db cwd fs =
     (let path = get_db_path cwd;
          conn = fs path;
          conn = conn\<lparr>users_table := create_table_if_not_exists (users_table conn)\<rparr>;
          conn = conn\<lparr>history_table := create_table_if_not_exists (history_table conn)\<rparr>
      in fs(path := conn))"

subsection \<open>Password hashing\<close>

text \<open>
  \<open>pbkdf2_sha256\<close> belongs to the passlib package, not to this program, so it is a
  parameter: \<open>pbkdf2_hash salt password\<close> is the hash string computed with the salt the
  library draws, \<open>pbkdf2_verify password hashed\<close> the outcome of the check; \<open>None\<close> means
  that the library raised.
\<close>

record passlib =
  pbkdf2_hash :: "str \<Rightarrow> str \<Rightarrow> str option"
  pbkdf2_verify :: "str \<Rightarrow> str \<Rightarrow> bool option"

definition hash_password :: "passlib \<Rightarrow> str \<Rightarrow> str \<Rightarrow> error + str" where
  "hash_password lib salt password =
     (case pbkdf2_hash lib salt password of None \<Rightarrow> Inl PasslibError | Some h \<Rightarrow> Inr h)"

definition verify_password :: "passlib \<Rightarrow> str \<Rightarrow> str \<Rightarrow> error + bool" where
  "verify_password lib password hashed =
     (case pbkdf2_verify lib password hashed of None \<Rightarrow> Inl PasslibError | Some ok \<Rightarrow> Inr ok)"

subsection \<open>Credential store\<close>

definition fetchone :: "'a list \<Rightarrow> 'a option" where
  "fetchone rows = (case rows of [] \<Rightarrow> None | r # _ \<Rightarrow> Some r)"

text \<open>INSERT INTO users VALUES (?, ?): username is the PRIMARY KEY of the table.\<close>

definition insert_user :: "str \<times> str \<Rightarrow> database \<Rightarrow> error + database" where
  "insert_user row conn =
     (case users_table conn of
        None \<Rightarrow> Inl OperationalError
      | Some rows \<Rightarrow>
          if \<not> bindable [fst row, snd row] then Inl UnicodeEncodeError
          else if fst row \<in> set (map fst rows) then Inl IntegrityError
          else Inr (conn\<lparr>users_table := Some (rows @ [row])\<rparr>))"

text \<open>SELECT password_hash FROM users WHERE username=?\<close>

definition select_password_hash :: "str \<Rightarrow> database \<Rightarrow> error + str list" where
  "select_password_hash name conn =
     (case users_table conn of
        None \<Rightarrow> Inl OperationalError
      | Some rows \<Rightarrow>
          if \<not> bindable [name] then Inl UnicodeEncodeError
          else Inr (map snd (filter (\<lambda>r. fst r = name) rows)))"

text \<open>
  The arguments of \<open>c.execute\<close> are evaluated first, so an exception of the hashing call
  leaves before the INSERT runs. Only \<open>IntegrityError\<close> is caught; the commit happens on
  the successful path only.
\<close>

definition create_user ::
  "passlib \<Rightarrow> str \<Rightarrow> filesystem \<Rightarrow> str \<Rightarrow> str \<Rightarrow> (error + bool) \<times> filesystem" where
  "create_user lib salt fs name password =
     (let conn = fs (lit ''prepclass.db'') in
      case hash_password lib salt password of
        Inl e \<Rightarrow> (Inl e, fs)
      | Inr h \<Rightarrow>
          (case insert_user (name, h) conn of
             Inl e \<Rightarrow> if e = IntegrityError then (Inr False, fs) else (Inl e, fs)
           | Inr conn' \<Rightarrow> (Inr True, fs(lit ''prepclass.db'' := conn'))))"

definition authenticate_user :: "passlib \<Rightarrow> filesystem \<Rightarrow> str \<Rightarrow> str \<Rightarrow> error + bool" where
  "authenticate_user lib fs name password =
     (let conn = fs (lit ''prepclass.db'') in
      case select_password_hash name conn of
        Inl e \<Rightarrow> Inl e
      | Inr rows \<Rightarrow>
          (case fetchone rows of
             None \<Rightarrow> Inr False
           | Some hashed \<Rightarrow>
               (case verify_password lib password hashed of
                  Inl e \<Rightarrow> Inl e
                | Inr ok \<Rightarrow> Inr ok)))"

text \<open>The hash stored for a user name, when the users table has one.\<close>

definition stored_hash :: "filesystem \<Rightarrow> str \<Rightarrow> str option" where
  "stored_hash fs name =
     (case users_table (fs (lit ''prepclass.db'')) of
        None \<Rightarrow> None
      | Some rows \<Rightarrow> map_of rows name)"

definition user_present :: "filesystem \<Rightarrow> str \<Rightarrow> bool" where
  "user_present fs name =
     (case users_table (fs (lit ''prepclass.db'')) of
        None \<Rightarrow> False
      | Some rows \<Rightarrow> name \<in> set (map fst rows))"

subsection \<open>Timestamps\<close>

text \<open>
  \<open>datetime.now()\<close> is an input of the model: a naive local date-time, of which the
  format \<open>%Y-%m-%d %H:%M\<close> reads the five fields below. Python compares two such values
  field by field, the year first.
\<close>

record datetime =
  year :: nat
  month :: nat
  day :: nat
  hour :: nat
  minute :: nat

definition datetime_le :: "datetime \<Rightarrow> datetime \<Rightarrow> bool" where
  "datetime_le a b =
     (year a < year b \<or> (year a = year b \<and>
       (month a < month b \<or> (month a = month b \<and>
         (day a < day b \<or> (day a = day b \<and>
           (hour a < hour b \<or> (hour a = hour b \<and> minute a \<le> minute b))))))))"

text \<open>The ranges of the fields of a \<open>datetime\<close> object whose year has four digits.\<close>

definition four_digit_datetime :: "datetime \<Rightarrow> bool" where
  "four_digit_datetime a =
     (1000 \<le> year a \<and> year a \<le> 9999 \<and> 1 \<le> month a \<and> month a \<le> 12 \<and>
      1 \<le> day a \<and> day a \<le> 31 \<and> hour a < 24 \<and> minute a < 60)"

text \<open>The digits are the code points from 48 on.\<close>

definition digit :: "nat \<Rightarrow> nat" where
  "digit n = 48 + n"

text \<open>The decimal numeral of a number, without padding (\<open>%Y\<close> of the C library).\<close>

fun dec :: "nat \<Rightarrow> str" where
  "dec n = (if n < 10 then [digit n] else dec (n div 10) @ [digit (n mod 10)])"

text \<open>\<open>%m\<close>, \<open>%d\<close>, \<open>%H\<close>, \<open>%M\<close>: two digits, zero-padded.\<close>

definition pad2 :: "nat \<Rightarrow> str" where
  "pad2 n = (if n < 10 then lit ''0'' @ dec n else dec n)"

text \<open>\<open>strftime("%Y-%m-%d %H:%M")\<close>\<close>

definition strftime :: "datetime \<Rightarrow> str" where
  "strftime a =
     dec (year a) @ lit ''-'' @ pad2 (month a) @ lit ''-'' @ pad2 (day a) @ lit '' '' @
     pad2 (hour a) @ lit '':'' @ pad2 (minute a)"

subsection \<open>History store\<close>

text \<open>\<open>content[key]\<close> on a dictionary raises KeyError for a missing key.\<close>

definition getitem :: "('k \<rightharpoonup> 'v) \<Rightarrow> 'k \<Rightarrow> error + 'v" where
  "getitem d k = (case d k of None \<Rightarrow> Inl KeyError | Some v \<Rightarrow> Inr v)"

text \<open>SELECT id FROM history WHERE username=? AND topic=?\<close>

definition select_history_id :: "str \<Rightarrow> str \<Rightarrow> database \<Rightarrow> error + nat list" where
  "select_history_id name tp conn =
     (case history_table conn of
        None \<Rightarrow> Inl OperationalError
      | Some rows \<Rightarrow>
          if \<not> bindable [name, tp] then Inl UnicodeEncodeError
          else Inr (map id_col (filter (\<lambda>r. username r = name \<and> topic r = tp) rows)))"

text \<open>UPDATE history SET difficulty=?, timestamp=?, pre_class=?, in_class=?, post_class=? WHERE id=?\<close>

definition update_history ::
  "str \<Rightarrow> str \<Rightarrow> str \<Rightarrow> str \<Rightarrow> str \<Rightarrow> nat \<Rightarrow> database \<Rightarrow> error + database" where
  "update_history diff ts pre inn post i conn =
     (case history_table conn of
        None \<Rightarrow> Inl OperationalError
      | Some rows \<Rightarrow>
          if \<not> bindable [diff, ts, pre, inn, post] then Inl UnicodeEncodeError
          else
            Inr (conn\<lparr>history_table := Some (map (\<lambda>r. if id_col r = i
                   then r\<lparr>difficulty := diff, timestamp := ts,
                          pre_class := pre, in_class := inn, post_class := post\<rparr>
                   else r) rows)\<rparr>))"

text \<open>
  INSERT INTO history (username, topic, difficulty, timestamp, pre_class, in_class,
  post_class) VALUES (...): the id is AUTOINCREMENT, one more than the largest id the
  table has ever held.
\<close>

definition insert_history ::
  "str \<Rightarrow> str \<Rightarrow> str \<Rightarrow> str \<Rightarrow> str \<Rightarrow> str \<Rightarrow> str \<Rightarrow> database \<Rightarrow> error + database" where
  "insert_history name tp diff ts pre inn post conn =
     (case history_table conn of
        None \<Rightarrow> Inl OperationalError
      | Some rows \<Rightarrow>
          if \<not> bindable [name, tp, diff, ts, pre, inn, post] then Inl UnicodeEncodeError
          else
            (let new_id = Suc (fold max (map id_col rows) (history_seq conn)) in
             Inr (conn\<lparr>history_table := Some (rows @
                    [\<lparr>difficulty = diff, timestamp = ts, pre_class = pre, in_class = inn,
                      post_class = post, id_col = new_id, username = name, topic = tp\<rparr>]),
                    history_seq := new_id\<rparr>)))"

text \<open>
  The SELECT runs first. The argument tuple of the second \<open>execute\<close> is built before the
  statement runs: the timestamp, then the three lookups in \<open>content\<close>, in this order in
  both branches. The commit is reached only when nothing raised.
\<close>

definition save_history_to_db ::
  "datetime \<Rightarrow> filesystem \<Rightarrow> str \<Rightarrow> str \<Rightarrow> str \<Rightarrow> (str \<rightharpoonup> str) \<Rightarrow>
     (error + unit) \<times> filesystem" where
  "save_history_to_db now fs name tp diff content =
     (let conn = fs (lit ''prepclass.db'') in
      case select_history_id name tp conn of
        Inl e \<Rightarrow> (Inl e, fs)
      | Inr ids \<Rightarrow>
          (let exists = fetchone ids; ts = strftime now in
           case getitem content (lit ''pre_class'') of
             Inl e \<Rightarrow> (Inl e, fs)
           | Inr pre \<Rightarrow>
          (case getitem content (lit ''in_class'') of
             Inl e \<Rightarrow> (Inl e, fs)
           | Inr inn \<Rightarrow>
          (case getitem content (lit ''post_class'') of
             Inl e \<Rightarrow> (Inl e, fs)
           | Inr post \<Rightarrow>
          (case (case exists of
                   Some i \<Rightarrow> update_history diff ts pre inn post i conn
                 | None \<Rightarrow> insert_history name tp diff ts pre inn post conn) of
             Inl e \<Rightarrow> (Inl e, fs)
           | Inr conn' \<Rightarrow> (Inr (), fs(lit ''prepclass.db'' := conn')))))))"

text \<open>
  A Python dictionary keeps its keys in insertion order; assigning to a key it already
  holds replaces the value and leaves the key where it is.
\<close>

fun setitem :: "'k \<Rightarrow> 'v \<Rightarrow> ('k \<times> 'v) list \<Rightarrow> ('k \<times> 'v) list" where
  "setitem k v [] = [(k, v)]"
| "setitem k v (p # d) = (if fst p = k then (k, v) # d else p # setitem k v d)"

text \<open>
  ORDER BY timestamp DESC compares the stored strings byte by byte in UTF-8, which orders
  them as the lists of their code points are ordered. SQL leaves the order of rows with
  equal timestamps open; here they stay in rowid order.
\<close>

definition order_by_timestamp_desc :: "history_row list \<Rightarrow> history_row list" where
  "order_by_timestamp_desc rows = rev (sort_key timestamp (rev rows))"

text \<open>SELECT topic, difficulty, timestamp, pre_class, in_class, post_class FROM history
  WHERE username=? ORDER BY timestamp DESC\<close>

definition select_history :: "str \<Rightarrow> database \<Rightarrow> error + history_row list" where
  "select_history name conn =
     (case history_table conn of
        None \<Rightarrow> Inl OperationalError
      | Some rows \<Rightarrow>
          if \<not> bindable [name] then Inl UnicodeEncodeError
          else Inr (order_by_timestamp_desc (filter (\<lambda>r. username r = name) rows)))"

definition load_history_from_db ::
  "filesystem \<Rightarrow> str \<Rightarrow> error + (str \<times> history_entry) list" where
  "load_history_from_db fs name =
     (let conn = fs (lit ''prepclass.db'') in
      case select_history name conn of
        Inl e \<Rightarrow> Inl e
      | Inr rows \<Rightarrow>
          Inr (fold (\<lambda>row h. setitem (topic row)
                 \<lparr>difficulty = difficulty row, timestamp = timestamp row,
                  pre_class = pre_class row, in_class = in_class row,
                  post_class = post_class row\<rparr> h) rows []))"

section \<open>The session and the main page\<close>

text \<open>
  \<open>st.session_state\<close> lives from one run of the script to the next. A key that has not
  been assigned yet is \<open>None\<close>; \<open>current_topic\<close> can also be present with the Python
  value None. The three entries of \<open>displayed_content\<close> are None until a document is shown.
\<close>

record displayed =
  pre_class_doc :: "str option"
  in_class_doc :: "str option"
  post_class_doc :: "str option"

record session_state =
  authenticated :: bool
  session_username :: "str option"
  history :: "(str \<times> history_entry) list option"
  current_topic :: "str option option"
  displayed_content :: "displayed option"
  selected_difficulty :: "str option"

definition nothing_displayed :: displayed where
  "nothing_displayed = \<lparr>pre_class_doc = None, in_class_doc = None, post_class_doc = None\<rparr>"

text \<open>
  What the user did in the run: the texts of the sidebar inputs, the choice of the history
  select box, and the one button that was pressed, if any.
\<close>

datatype button = NoButton | GenerateBtn | LoadTopicBtn | ClearHistoryBtn | LogoutBtn

record widgets =
  api_key_input :: str
  topic_input :: str
  history_select :: str
  clicked :: button

text \<open>
  How a run of \<open>main_app\<close> ends: the page is rendered to its end, \<open>st.rerun()\<close> or
  \<open>st.stop()\<close> leaves the script, the \<open>except\<close> branch of the generation flow reports an
  exception and the page is rendered, or an exception leaves the script.
\<close>

datatype outcome = Rendered | Reran | Stopped | ErrorShown error | Uncaught error

text \<open>
  \<open>generate_pre_class\<close>, \<open>generate_in_class\<close> and \<open>generate_post_class\<close> format a prompt
  and return the text the completion service answers; the answer of the service, or the
  exception of the call, is a parameter of the model: \<open>gen doc topic difficulty api_key\<close>.
\<close>

datatype document = PreClass | InClass | PostClass

type_synonym generator = "document \<Rightarrow> str \<Rightarrow> str \<Rightarrow> str \<Rightarrow> error + str"

text \<open>The "Load Selected Topic" button (lines 218-229).\<close>

definition load_selected_topic ::
  "str \<Rightarrow> (str \<times> history_entry) list \<Rightarrow> session_state \<Rightarrow> filesystem \<Rightarrow>
     outcome \<times> session_state \<times> filesystem" where
  "load_selected_topic selected_topic hist st fs =
     (let st = st\<lparr>current_topic := Some (Some selected_topic)\<rparr> in
      case getitem (map_of hist) selected_topic of
        Inl e \<Rightarrow> (Uncaught e, st, fs)
      | Inr h \<Rightarrow>
          (Reran,
           st\<lparr>displayed_content := Some \<lparr>pre_class_doc = Some (pre_class h),
                  in_class_doc = Some (in_class h), post_class_doc = Some (post_class h)\<rparr>,
              selected_difficulty := Some (difficulty h)\<rparr>,
           fs))"

text \<open>The "Clear History" button (lines 234-243).\<close>

definition clear_history ::
  "session_state \<Rightarrow> filesystem \<Rightarrow> outcome \<times> session_state \<times> filesystem" where
  "clear_history st fs =
     (Reran,
      st\<lparr>history := Some [],
         current_topic := Some None,
         displayed_content := Some \<lparr>pre_class_doc = None, in_class_doc = None,
                                    post_class_doc = None\<rparr>,
         selected_difficulty := Some (lit ''Beginner'')\<rparr>,
      fs)"

text \<open>The "Logout" button (lines 246-249).\<close>

definition logout ::
  "session_state \<Rightarrow> filesystem \<Rightarrow> outcome \<times> session_state \<times> filesystem" where
  "logout st fs = (Reran, st\<lparr>authenticated := False, session_username := None\<rparr>, fs)"

text \<open>
  The generation flow (lines 410-455). \<open>diff\<close> is \<open>st.session_state.selected_difficulty\<close>.
  Any exception inside the \<open>try\<close> is caught and reported; \<open>st.rerun()\<close> is not an
  \<open>Exception\<close> and leaves the script.
\<close>

definition generate_materials ::
  "generator \<Rightarrow> datetime \<Rightarrow> widgets \<Rightarrow> str \<Rightarrow> str \<Rightarrow> session_state \<Rightarrow> filesystem \<Rightarrow>
     outcome \<times> session_state \<times> filesystem" where
  "generate_materials gen now w name diff st fs =
     (let topic_now = topic_input w; api_key = api_key_input w in
      if topic_now = [] then (Stopped, st, fs)
      else if api_key = [] then (Stopped, st, fs)
      else
        case gen PreClass topic_now diff api_key of
          Inl e \<Rightarrow> (ErrorShown e, st, fs)
        | Inr pre_class_content \<Rightarrow>
       (case gen InClass topic_now diff api_key of
          Inl e \<Rightarrow> (ErrorShown e, st, fs)
        | Inr in_class_content \<Rightarrow>
       (case gen PostClass topic_now diff api_key of
          Inl e \<Rightarrow> (ErrorShown e, st, fs)
        | Inr post_class_content \<Rightarrow>
            (let st = st\<lparr>displayed_content := Some \<lparr>pre_class_doc = Some pre_class_content,
                            in_class_doc = Some in_class_content,
                            post_class_doc = Some post_class_content\<rparr>,
                          current_topic := Some (Some topic_now)\<rparr>;
                 saved = save_history_to_db now fs name topic_now diff
                           [lit ''pre_class'' \<mapsto> pre_class_content,
                            lit ''in_class'' \<mapsto> in_class_content,
                            lit ''post_class'' \<mapsto> post_class_content]
             in case fst saved of
                  Inl e \<Rightarrow> (ErrorShown e, st, snd saved)
                | Inr _ \<Rightarrow>
                    (case load_history_from_db (snd saved) name of
                       Inl e \<Rightarrow> (ErrorShown e, st, snd saved)
                     | Inr h \<Rightarrow> (Reran, st\<lparr>history := Some h\<rparr>, snd saved))))))"

text \<open>
  One run of \<open>main_app\<close> for the logged-in user \<open>name\<close> (the value of
  \<open>st.session_state.username\<close>: the script calls \<open>main_app\<close> only while \<open>authenticated\<close>
  is set, and the login sets both). First the four session keys are initialised where
  missing (lines 167-182); the difficulty select box looks its index up in the list of the
  three levels (line 206); then the pressed button is handled. The rendering of the
  documents and of the download buttons changes neither the session nor the files.
\<close>

definition main_app ::
  "generator \<Rightarrow> datetime \<Rightarrow> widgets \<Rightarrow> str \<Rightarrow> session_state \<Rightarrow> filesystem \<Rightarrow>
     outcome \<times> session_state \<times> filesystem" where
  "main_app gen now w name st fs =
     (case (case history st of
              None \<Rightarrow> load_history_from_db fs name
            | Some h \<Rightarrow> Inr h) of
        Inl e \<Rightarrow> (Uncaught e, st, fs)
      | Inr hist \<Rightarrow>
          (let topic0 = (case current_topic st of None \<Rightarrow> None | Some t \<Rightarrow> t);
               shown0 = (case displayed_content st of
                           None \<Rightarrow> \<lparr>pre_class_doc = None, in_class_doc = None,
                                     post_class_doc = None\<rparr>
                         | Some d \<Rightarrow> d);
               diff0 = (case selected_difficulty st of None \<Rightarrow> lit ''Beginner'' | Some d \<Rightarrow> d);
               st = st\<lparr>history := Some hist, current_topic := Some topic0,
                       displayed_content := Some shown0, selected_difficulty := Some diff0\<rparr>
           in if diff0 \<notin> set [lit ''Beginner'', lit ''Intermediate'', lit ''Advanced'']
              then (Uncaught ValueError, st, fs)
              else if clicked w = LoadTopicBtn \<and> hist \<noteq> []
              then load_selected_topic (history_select w) hist st fs
              else if clicked w = ClearHistoryBtn then clear_history st fs
              else if clicked w = LogoutBtn then logout st fs
              else if clicked w = GenerateBtn then generate_materials gen now w name diff0 st fs
              else (Rendered, st, fs)))"

section \<open>Export\<close>

subsection \<open>UTF-8\<close>

text \<open>
  \<open>str.encode('utf-8')\<close> with the default error handler \<open>strict\<close>: a surrogate code point
  has no encoding and raises UnicodeEncodeError. The last branch is for numbers that are
  no code points; no \<open>str\<close> holds one.
\<close>

definition utf8_encode_char :: "nat \<Rightarrow> error + nat list" where
  "utf8_encode_char c =
     (if c < 0x80 then Inr [c]
      else if c < 0x800 then Inr [0xC0 + c div 64, 0x80 + c mod 64]
      else if c < 0x10000 then
        (if surrogate c then Inl UnicodeEncodeError
         else Inr [0xE0 + c div 4096, 0x80 + c div 64 mod 64, 0x80 + c mod 64])
      else if c < 0x110000 then
        Inr [0xF0 + c div 262144, 0x80 + c div 4096 mod 64, 0x80 + c div 64 mod 64,
             0x80 + c mod 64]
      else Inl ValueError)"

fun utf8_encode :: "nat list \<Rightarrow> error + nat list" where
  "utf8_encode [] = Inr []"
| "utf8_encode (c # s) =
     (case utf8_encode_char c of
        Inl e \<Rightarrow> Inl e
      | Inr bs \<Rightarrow> (case utf8_encode s of Inl e \<Rightarrow> Inl e | Inr rest \<Rightarrow> Inr (bs @ rest)))"

text \<open>
  \<open>bytes.decode('utf-8')\<close>, strict: the shortest form only, no surrogates, nothing above
  \<open>0x10FFFF\<close>; anything else raises UnicodeDecodeError.
\<close>

definition continuation :: "nat \<Rightarrow> bool" where
  "continuation b = (0x80 \<le> b \<and> b \<le> 0xBF)"

definition decoded :: "nat \<Rightarrow> error + nat list \<Rightarrow> error + nat list" where
  "decoded c r = (case r of Inl e \<Rightarrow> Inl e | Inr s \<Rightarrow> Inr (c # s))"

fun utf8_decode :: "nat list \<Rightarrow> error + nat list" where
  "utf8_decode [] = Inr []"
| "utf8_decode (b0 # bs) =
     (if b0 < 0x80 then decoded b0 (utf8_decode bs)
      else if 0xC2 \<le> b0 \<and> b0 \<le> 0xDF then
        (case bs of
           b1 # rest \<Rightarrow>
             if continuation b1
             then decoded ((b0 - 0xC0) * 64 + (b1 - 0x80)) (utf8_decode rest)
             else Inl UnicodeDecodeError
         | _ \<Rightarrow> Inl UnicodeDecodeError)
      else if 0xE0 \<le> b0 \<and> b0 \<le> 0xEF then
        (case bs of
           b1 # b2 # rest \<Rightarrow>
             if continuation b1 \<and> continuation b2 \<and>
                (b0 = 0xE0 \<longrightarrow> 0xA0 \<le> b1) \<and> (b0 = 0xED \<longrightarrow> b1 \<le> 0x9F)
             then decoded ((b0 - 0xE0) * 4096 + (b1 - 0x80) * 64 + (b2 - 0x80))
                    (utf8_decode rest)
             else Inl UnicodeDecodeError
         | _ \<Rightarrow> Inl UnicodeDecodeError)
      else if 0xF0 \<le> b0 \<and> b0 \<le> 0xF4 then
        (case bs of
           b1 # b2 # b3 # rest \<Rightarrow>
             if continuation b1 \<and> continuation b2 \<and> continuation b3 \<and>
                (b0 = 0xF0 \<longrightarrow> 0x90 \<le> b1) \<and> (b0 = 0xF4 \<longrightarrow> b1 \<le> 0x8F)
             then decoded ((b0 - 0xF0) * 262144 + (b1 - 0x80) * 4096 + (b2 - 0x80) * 64 +
                           (b3 - 0x80)) (utf8_decode rest)
             else Inl UnicodeDecodeError
         | _ \<Rightarrow> Inl UnicodeDecodeError)
      else Inl UnicodeDecodeError)"

text \<open>\<open>create_markdown\<close> ignores its second argument.\<close>

definition create_markdown :: "nat list \<Rightarrow> nat list \<Rightarrow> error + nat list" where
  "create_markdown content filename = utf8_encode content"

subsection \<open>The PDF\<close>

text \<open>
  \<open>str.strip()\<close> removes the characters for which \<open>str.isspace\<close> holds from both ends.
\<close>

definition isspace :: "nat \<Rightarrow> bool" where
  "isspace c =
     ((0x09 \<le> c \<and> c \<le> 0x0D) \<or> (0x1C \<le> c \<and> c \<le> 0x20) \<or> c = 0x85 \<or> c = 0xA0 \<or>
      c = 0x1680 \<or> (0x2000 \<le> c \<and> c \<le> 0x200A) \<or> c = 0x2028 \<or> c = 0x2029 \<or>
      c = 0x202F \<or> c = 0x205F \<or> c = 0x3000)"

definition strip :: "nat list \<Rightarrow> nat list" where
  "strip s = rev (dropWhile isspace (rev (dropWhile isspace s)))"

definition endswith :: "nat list \<Rightarrow> nat \<Rightarrow> bool" where
  "endswith s c = (case rev s of [] \<Rightarrow> False | d # _ \<Rightarrow> d = c)"

definition startswith :: "nat list \<Rightarrow> nat \<Rightarrow> bool" where
  "startswith s c = (case s of [] \<Rightarrow> False | d # _ \<Rightarrow> d = c)"

text \<open>\<open>content.split('\n')\<close>: \<open>line\<close> collects the current line, last character first.\<close>

fun split_at :: "nat \<Rightarrow> nat list \<Rightarrow> nat list \<Rightarrow> nat list list" where
  "split_at sep line [] = [rev line]"
| "split_at sep line (c # s) =
     (if c = sep then rev line # split_at sep [] s else split_at sep (c # line) s)"

definition split :: "nat list \<Rightarrow> nat \<Rightarrow> nat list list" where
  "split content sep = split_at sep [] content"

text \<open>
  \<open>text.encode('latin-1', 'replace').decode('latin-1')\<close>: a character that latin-1 does
  not have becomes a question mark.
\<close>

definition clean_text :: "nat list \<Rightarrow> nat list" where
  "clean_text text = map (\<lambda>c. if c < 256 then c else 63) text"

text \<open>
  The FPDF object is outside the program. The model of \<open>create_pdf\<close> returns the calls
  that write text to it, in order: \<open>Heading txt\<close> is \<open>pdf.cell(200, 10, txt, ln=True)\<close>
  under the bold font of size 14, \<open>Body txt\<close> is \<open>pdf.multi_cell(0, 8, txt)\<close> under
  the regular font of size 12. The colon is code point 58, the hash mark 35, the line break 10.
\<close>

datatype pdf_text = Heading "nat list" | Body "nat list"

definition is_heading :: "nat list \<Rightarrow> bool" where
  "is_heading line = (endswith (strip line) 58 \<or> (strip line \<noteq> [] \<and> startswith (strip line) 35))"

definition create_pdf :: "nat list \<Rightarrow> nat list \<Rightarrow> pdf_text list" where
  "create_pdf content filename =
     map (\<lambda>line. if is_heading line then Heading (clean_text line) else Body (clean_text line))
       (split content 10)"

section \<open>Notions used in the statements\<close>

subsection \<open>Sequences of calls\<close>

text \<open>
  One call of \<open>save_history_to_db\<close>: the clock at the call and the four arguments. A call
  that raises leaves the files as they are, and the next call runs all the same.
\<close>

type_synonym upsert_call = "datetime \<times> str \<times> str \<times> str \<times> (str \<rightharpoonup> str)"

fun upserts :: "filesystem \<Rightarrow> upsert_call list \<Rightarrow> filesystem" where
  "upserts fs [] = fs"
| "upserts fs ((now, name, tp, diff, content) # calls) =
     upserts (snd (save_history_to_db now fs name tp diff content)) calls"

text \<open>The rows of the history table for one user and one topic.\<close>

definition records_for :: "filesystem \<Rightarrow> str \<Rightarrow> str \<Rightarrow> history_row list" where
  "records_for fs name tp =
     (case history_table (fs (lit ''prepclass.db'')) of
        None \<Rightarrow> []
      | Some rows \<Rightarrow> filter (\<lambda>r. username r = name \<and> topic r = tp) rows)"

text \<open>No two rows of the history table have the same user and topic.\<close>

definition one_record_per_topic :: "filesystem \<Rightarrow> bool" where
  "one_record_per_topic fs =
     (case history_table (fs (lit ''prepclass.db'')) of
        None \<Rightarrow> False
      | Some rows \<Rightarrow> distinct (map (\<lambda>r. (username r, topic r)) rows))"

text \<open>The dictionary that \<open>load_history_from_db\<close> stores under the topic of a row.\<close>

definition columns :: "history_row \<Rightarrow> history_entry" where
  "columns row =
     \<lparr>difficulty = difficulty row, timestamp = timestamp row, pre_class = pre_class row,
      in_class = in_class row, post_class = post_class row\<rparr>"

subsection \<open>Lines\<close>

text \<open>\<open>sep.join(lines)\<close>, the inverse of \<open>split\<close>.\<close>

fun join :: "nat \<Rightarrow> nat list list \<Rightarrow> nat list" where
  "join sep [] = []"
| "join sep [l] = l"
| "join sep (l # ls) = l @ sep # join sep ls"

section \<open>Example inputs\<close>

text \<open>
  A stand-in for the hashing library, used to run the credential store on concrete
  inputs. As the library does, it raises on a password that UTF-8 cannot encode; the
  "hash" of any other password is the two-character salt followed by the password.
\<close>

definition example_passlib :: passlib where
  "example_passlib =
     \<lparr>pbkdf2_hash = (\<lambda>salt password.
        if scalar_values password then Some (salt @ password) else None),
      pbkdf2_verify = (\<lambda>password hashed.
        if scalar_values password then Some (drop 2 hashed = password) else None)\<rparr>"

text \<open>The files after \<open>init_db\<close> has run in a working directory without "streamlit".\<close>

definition local_disk :: filesystem where
  "local_disk = init_db (lit ''/home/app'') fresh_disk"

text \<open>The files after \<open>init_db\<close> has run in a working directory with "streamlit" in it.\<close>

definition cloud_disk :: filesystem where
  "cloud_disk = init_db (lit ''/mount/src/streamlit-app'') fresh_disk"

text \<open>Arguments of \<open>save_history_to_db\<close>: two dictionaries of documents and two clock readings.\<close>

definition first_content :: "str \<rightharpoonup> str" where
  "first_content = [lit ''pre_class'' \<mapsto> lit ''reading 1'', lit ''in_class'' \<mapsto> lit ''plan 1'',
                    lit ''post_class'' \<mapsto> lit ''quiz 1'']"

definition second_content :: "str \<rightharpoonup> str" where
  "second_content = [lit ''pre_class'' \<mapsto> lit ''reading 2'', lit ''in_class'' \<mapsto> lit ''plan 2'',
                     lit ''post_class'' \<mapsto> lit ''quiz 2'']"

definition jan_1st :: datetime where
  "jan_1st = \<lparr>year = 2024, month = 1, day = 1, hour = 10, minute = 0\<rparr>"

definition jan_2nd :: datetime where
  "jan_2nd = \<lparr>year = 2024, month = 1, day = 2, hour = 9, minute = 0\<rparr>"

text \<open>The files after two topics were saved for one user, a day apart.\<close>

definition two_topics_disk :: filesystem where
  "two_topics_disk =
     upserts local_disk
       [(jan_1st, lit ''mentor1'', lit ''Recursion'', lit ''Beginner'', first_content),
        (jan_2nd, lit ''mentor1'', lit ''Sorting'', lit ''Advanced'', second_content)]"

text \<open>
  Inputs of \<open>main_app\<close>: a completion service whose second call fails, a session right
  after the login, and the sidebar with one button pressed.
\<close>

definition failing_generator :: generator where
  "failing_generator doc tp diff api_key =
     (case doc of InClass \<Rightarrow> Inl ApiError | _ \<Rightarrow> Inr (lit ''some text''))"

definition new_session :: session_state where
  "new_session =
     \<lparr>authenticated = True, session_username = Some (lit ''mentor1''), history = None,
      current_topic = None, displayed_content = None, selected_difficulty = None\<rparr>"

definition sidebar :: "button \<Rightarrow> widgets" where
  "sidebar b =
     \<lparr>api_key_input = lit ''sk-1'', topic_input = lit ''Graphs'',
      history_select = lit ''Sorting'', clicked = b\<rparr>"

section \<open>String literals\<close>

lemma lit_eq_iff [simp]: "(lit a = lit b) = (a = b)"
  by (simp add: lit_def inj_map_eq_map inj_of_char)

lemma lit_Nil [simp]: "lit [] = []"
  by (simp add: lit_def)

lemma lit_eq_Nil [simp]: "(lit s = []) = (s = [])"
  by (simp add: lit_def)

lemma lit_Cons: "lit (c # s) = of_char c # lit s"
  by (simp add: lit_def)

lemma of_char_scalar: "(of_char c :: nat) < 0x110000 \<and> \<not> surrogate (of_char c)"
proof -
  have "(of_char c :: nat) < 256" by simp
  then show ?thesis unfolding surrogate_def by linarith
qed

lemma scalar_values_lit [simp]: "scalar_values (lit s)"
  by (induction s) (simp_all add: lit_def scalar_values_def of_char_scalar)

lemma scalar_values_append [simp]:
  "scalar_values (a @ b) = (scalar_values a \<and> scalar_values b)"
  by (simp add: scalar_values_def)

lemma lit_append: "lit (a @ b) = lit a @ lit b"
  by (simp add: lit_def)

lemma lit_drop: "drop n (lit s) = lit (drop n s)"
  by (simp add: lit_def drop_map)

lemma surrogate_not_scalar: "\<not> scalar_values [0xD800]"
  by (simp add: scalar_values_def surrogate_def)

lemma streamlit_in_cloud: "sublist (lit ''streamlit'') (lit ''/mount/src/streamlit-app'')"
  by code_simp

lemma streamlit_not_local: "\<not> sublist (lit ''streamlit'') (lit ''/home/app'')"
  by code_simp

lemma local_disk_db:
  "local_disk (lit ''prepclass.db'') =
     \<lparr>users_table = Some [], history_table = Some [], history_seq = 0\<rparr>"
  by (simp add: local_disk_def init_db_def get_db_path_def fresh_disk_def no_tables_def
        create_table_if_not_exists_def Let_def streamlit_not_local)

lemma local_disk_users: "users_table (local_disk (lit ''prepclass.db'')) = Some []"
  by (simp add: local_disk_db)

lemma local_disk_history: "history_table (local_disk (lit ''prepclass.db'')) = Some []"
  by (simp add: local_disk_db)

lemma cloud_disk_db: "cloud_disk (lit ''prepclass.db'') = no_tables"
  by (simp add: cloud_disk_def init_db_def get_db_path_def fresh_disk_def Let_def
        streamlit_in_cloud)

section \<open>Credential store: properties\<close>

lemma fetchone_simps [simp]: "fetchone [] = None" "fetchone (x # xs) = Some x"
  by (simp_all add: fetchone_def)

lemma filter_fst_absent: "name \<notin> fst ` set rows \<Longrightarrow> filter (\<lambda>r. fst r = name) rows = []"
  by (induction rows) auto

lemma map_of_snoc_fresh:
  "name \<notin> fst ` set rows \<Longrightarrow> map_of (rows @ [(name, h)]) name = Some h"
  by (induction rows) auto

lemma create_user_present:
  assumes "user_present fs name"
  shows "create_user lib salt fs name password =
           (case hash_password lib salt password of
              Inl e \<Rightarrow> (Inl e, fs)
            | Inr h \<Rightarrow>
                if scalar_values name \<and> scalar_values h then (Inr False, fs)
                else (Inl UnicodeEncodeError, fs))"
  using assms
  by (auto simp: create_user_def user_present_def insert_user_def Let_def bindable_def
           split: option.splits sum.splits)

lemma create_user_fresh:
  assumes "users_table (fs (lit ''prepclass.db'')) = Some rows" "name \<notin> fst ` set rows"
    and "pbkdf2_hash lib salt password = Some h"
    and "scalar_values name" "scalar_values h"
  shows "create_user lib salt fs name password =
           (Inr True,
            fs(lit ''prepclass.db'' :=
                 (fs (lit ''prepclass.db''))\<lparr>users_table := Some (rows @ [(name, h)])\<rparr>))"
  using assms
  by (simp add: create_user_def insert_user_def hash_password_def Let_def bindable_def)

lemma authenticate_absent:
  assumes "users_table (fs (lit ''prepclass.db'')) = Some rows" "name \<notin> fst ` set rows"
    and "scalar_values name"
  shows "authenticate_user lib fs name password = Inr False"
  using assms
  by (simp add: authenticate_user_def select_password_hash_def Let_def filter_fst_absent
        bindable_def)

lemma authenticate_surrogate:
  assumes "users_table (fs (lit ''prepclass.db'')) \<noteq> None" "\<not> scalar_values name"
  shows "authenticate_user lib fs name password = Inl UnicodeEncodeError"
  using assms
  by (auto simp: authenticate_user_def select_password_hash_def Let_def bindable_def)

lemma authenticate_last:
  assumes "users_table (fs (lit ''prepclass.db'')) = Some (rows @ [(name, h)])"
    and "name \<notin> fst ` set rows" and "scalar_values name"
  shows "authenticate_user lib fs name password = verify_password lib password h"
  using assms
  by (simp add: authenticate_user_def select_password_hash_def Let_def filter_fst_absent
        bindable_def split: sum.splits)

text \<open>
  On the files that \<open>init_db\<close> leaves in a working directory without "streamlit", the
  user name that consists of the lone surrogate \<open>U+D800\<close> is not in the users table, yet
  \<open>create_user\<close> does not succeed for it and \<open>authenticate_user\<close> raises instead of
  returning False. On the files that \<open>init_db\<close> leaves in a working directory with
  "streamlit" in it, \<open>create_user\<close> raises for the absent name "mentor1".
\<close>

theorem create_then_authenticate_counterexample:
  "\<not> user_present local_disk [0xD800] \<and>
   fst (create_user example_passlib (lit ''s1'') local_disk [0xD800] (lit ''password123'')) =
     Inl UnicodeEncodeError \<and>
   authenticate_user example_passlib local_disk [0xD800] (lit ''password123'') =
     Inl UnicodeEncodeError \<and>
   \<not> user_present cloud_disk (lit ''mentor1'') \<and>
   fst (create_user example_passlib (lit ''s1'') cloud_disk (lit ''mentor1'')
          (lit ''password123'')) = Inl OperationalError"
  by (simp add: user_present_def local_disk_db cloud_disk_db no_tables_def create_user_def
        insert_user_def hash_password_def example_passlib_def authenticate_user_def
        select_password_hash_def bindable_def surrogate_not_scalar)

text \<open>
  C2, amended. Let the users table exist in "prepclass.db" and not hold the name \<open>u\<close>, let
  \<open>u\<close> be free of surrogate code points, and let the hashing library return for the
  password \<open>p\<close> a hash \<open>h\<close>, free of surrogates, that it verifies against \<open>p\<close>. Then
  \<open>create_user\<close> returns True; afterwards \<open>authenticate_user\<close> returns True for \<open>(u, p)\<close>,
  False for \<open>(u, wrong_p)\<close> whenever the library's verification of \<open>wrong_p\<close> against \<open>h\<close>
  fails, and False, not an exception, for every user name without surrogates that is not
  in the table; for a user name that holds a surrogate it raises UnicodeEncodeError.
\<close>

theorem create_then_authenticate:
  assumes "users_table (fs (lit ''prepclass.db'')) \<noteq> None"
    and "\<not> user_present fs u" and "scalar_values u"
    and "pbkdf2_hash lib salt p = Some h" and "scalar_values h"
    and "pbkdf2_verify lib p h = Some True"
  shows "fst (create_user lib salt fs u p) = Inr True \<and>
         authenticate_user lib (snd (create_user lib salt fs u p)) u p = Inr True \<and>
         (\<forall>wrong_p. pbkdf2_verify lib wrong_p h = Some False \<longrightarrow>
            authenticate_user lib (snd (create_user lib salt fs u p)) u wrong_p = Inr False) \<and>
         (\<forall>v q. scalar_values v \<longrightarrow> \<not> user_present (snd (create_user lib salt fs u p)) v \<longrightarrow>
            authenticate_user lib (snd (create_user lib salt fs u p)) v q = Inr False) \<and>
         (\<forall>v q. \<not> scalar_values v \<longrightarrow>
            authenticate_user lib (snd (create_user lib salt fs u p)) v q =
              Inl UnicodeEncodeError)"
proof -
  from assms(1) obtain rows where rows: "users_table (fs (lit ''prepclass.db'')) = Some rows"
    by blast
  let ?fs' = "fs(lit ''prepclass.db'' :=
                   (fs (lit ''prepclass.db''))\<lparr>users_table := Some (rows @ [(u, h)])\<rparr>)"
  from rows assms(2) have fresh: "u \<notin> fst ` set rows"
    by (simp add: user_present_def)
  have created: "create_user lib salt fs u p = (Inr True, ?fs')"
    using rows fresh assms(4) assms(3) assms(5) by (rule create_user_fresh)
  have tbl: "users_table (?fs' (lit ''prepclass.db'')) = Some (rows @ [(u, h)])"
    by simp
  have auth: "authenticate_user lib ?fs' u q = verify_password lib q h" for q
    using tbl fresh assms(3) by (rule authenticate_last)
  have right: "authenticate_user lib ?fs' u p = Inr True"
    using assms(6) by (simp add: auth verify_password_def)
  have wrong: "authenticate_user lib ?fs' u w = Inr False"
    if "pbkdf2_verify lib w h = Some False" for w
    using that by (simp add: auth verify_password_def)
  have unknown: "authenticate_user lib ?fs' v q = Inr False"
    if "scalar_values v" "\<not> user_present ?fs' v" for v q
  proof -
    from that(2) have "v \<notin> fst ` set (rows @ [(u, h)])"
      by (simp add: user_present_def)
    with tbl show ?thesis using that(1) by (rule authenticate_absent)
  qed
  have raises: "authenticate_user lib ?fs' v q = Inl UnicodeEncodeError"
    if "\<not> scalar_values v" for v q
    using that by (simp add: authenticate_surrogate)
  from right wrong unknown raises show ?thesis
    unfolding created fst_conv snd_conv by blast
qed


lemma example_hash:
  "pbkdf2_hash example_passlib (lit ''s1'') (lit ''password123'') = Some (lit ''s1password123'')"
  by (simp add: example_passlib_def lit_append [symmetric])

lemma example_verify:
  "pbkdf2_verify example_passlib (lit ''password123'') (lit ''s1password123'') = Some True"
  "pbkdf2_verify example_passlib (lit ''password124'') (lit ''s1password123'') = Some False"
  by (simp_all add: example_passlib_def lit_drop)

lemma example_created:
  "create_user example_passlib (lit ''s1'') local_disk (lit ''mentor1'') (lit ''password123'') =
     (Inr True, local_disk(lit ''prepclass.db'' :=
        \<lparr>users_table = Some [(lit ''mentor1'', lit ''s1password123'')],
         history_table = Some [], history_seq = 0\<rparr>))"
  by (simp add: create_user_fresh [where fs = local_disk and rows = "[]",
        OF local_disk_users _ example_hash] local_disk_db)

theorem create_then_authenticate_witness:
  "users_table (local_disk (lit ''prepclass.db'')) \<noteq> None \<and>
   \<not> user_present local_disk (lit ''mentor1'') \<and> scalar_values (lit ''mentor1'') \<and>
   pbkdf2_hash example_passlib (lit ''s1'') (lit ''password123'') =
     Some (lit ''s1password123'') \<and>
   scalar_values (lit ''s1password123'') \<and>
   pbkdf2_verify example_passlib (lit ''password123'') (lit ''s1password123'') = Some True \<and>
   fst (create_user example_passlib (lit ''s1'') local_disk (lit ''mentor1'')
          (lit ''password123'')) = Inr True \<and>
   authenticate_user example_passlib
     (snd (create_user example_passlib (lit ''s1'') local_disk (lit ''mentor1'')
             (lit ''password123'')))
     (lit ''mentor1'') (lit ''password123'') = Inr True \<and>
   authenticate_user example_passlib
     (snd (create_user example_passlib (lit ''s1'') local_disk (lit ''mentor1'')
             (lit ''password123'')))
     (lit ''mentor1'') (lit ''password124'') = Inr False \<and>
   authenticate_user example_passlib
     (snd (create_user example_passlib (lit ''s1'') local_disk (lit ''mentor1'')
             (lit ''password123'')))
     (lit ''mentor2'') (lit ''password123'') = Inr False \<and>
   authenticate_user example_passlib
     (snd (create_user example_passlib (lit ''s1'') local_disk (lit ''mentor1'')
             (lit ''password123'')))
     [0xD800] (lit ''password123'') = Inl UnicodeEncodeError"
proof -
  have h1: "users_table (local_disk (lit ''prepclass.db'')) \<noteq> None"
    by (simp add: local_disk_users)
  have h2: "\<not> user_present local_disk (lit ''mentor1'')"
    by (simp add: user_present_def local_disk_users)
  have h3: "scalar_values (lit ''mentor1'')" and h5: "scalar_values (lit ''s1password123'')"
    and h7: "scalar_values (lit ''mentor2'')"
    by simp_all
  have h8: "\<not> user_present
      (snd (create_user example_passlib (lit ''s1'') local_disk (lit ''mentor1'')
              (lit ''password123''))) (lit ''mentor2'')"
    by (simp add: example_created user_present_def)
  from create_then_authenticate [where fs = local_disk, OF h1 h2 h3 example_hash h5
      example_verify(1)] h1 h2 h3 h5 h7 h8 example_hash example_verify surrogate_not_scalar
  show ?thesis
    by blast
qed

text \<open>
  After "mentor1" has signed up, a second sign-up under the same name with a password
  that the hashing library rejects (here one that holds a lone surrogate, which the
  library cannot encode) does not return the failure value: the exception of the hashing
  call leaves \<open>create_user\<close>.
\<close>

theorem create_second_time_counterexample:
  "create_user example_passlib (lit ''s1'') local_disk (lit ''mentor1'') (lit ''password123'') =
     (Inr True, local_disk(lit ''prepclass.db'' :=
        \<lparr>users_table = Some [(lit ''mentor1'', lit ''s1password123'')],
         history_table = Some [], history_seq = 0\<rparr>)) \<and>
   fst (create_user example_passlib (lit ''s2'')
     (local_disk(lit ''prepclass.db'' :=
        \<lparr>users_table = Some [(lit ''mentor1'', lit ''s1password123'')],
         history_table = Some [], history_seq = 0\<rparr>))
     (lit ''mentor1'') [0xD800]) = Inl PasslibError"
  by (simp add: example_created)
     (simp add: create_user_def hash_password_def example_passlib_def surrogate_not_scalar)

text \<open>
  C3, amended. After a successful \<open>create_user\<close> for \<open>u\<close>, a second \<open>create_user\<close> for the
  same \<open>u\<close>, with any password and salt, leaves every database file as it is, so the hash
  stored by the first call stays. The second call returns False whenever the hashing call
  returns a hash without surrogate code points; when the hashing call raises, its
  exception leaves \<open>create_user\<close>. Neither IntegrityError nor OperationalError leaves it.
\<close>

theorem create_second_time:
  assumes "create_user lib salt1 fs u p1 = (Inr True, fs1)"
  shows "snd (create_user lib salt2 fs1 u p2) = fs1 \<and>
         stored_hash fs1 u = pbkdf2_hash lib salt1 p1 \<and>
         stored_hash (snd (create_user lib salt2 fs1 u p2)) u = stored_hash fs1 u \<and>
         (\<forall>h2. pbkdf2_hash lib salt2 p2 = Some h2 \<longrightarrow> scalar_values h2 \<longrightarrow>
            fst (create_user lib salt2 fs1 u p2) = Inr False) \<and>
         (pbkdf2_hash lib salt2 p2 = None \<longrightarrow>
            fst (create_user lib salt2 fs1 u p2) = Inl PasslibError) \<and>
         fst (create_user lib salt2 fs1 u p2) \<noteq> Inl IntegrityError \<and>
         fst (create_user lib salt2 fs1 u p2) \<noteq> Inl OperationalError"
proof -
  from assms obtain rows h where
    tbl: "users_table (fs (lit ''prepclass.db'')) = Some rows" and
    fresh: "u \<notin> fst ` set rows" and
    h: "pbkdf2_hash lib salt1 p1 = Some h" and
    u: "scalar_values u" and
    fs1: "fs1 = fs(lit ''prepclass.db'' :=
                  (fs (lit ''prepclass.db''))\<lparr>users_table := Some (rows @ [(u, h)])\<rparr>)"
    by (auto simp: create_user_def insert_user_def hash_password_def Let_def bindable_def
             split: option.splits sum.splits if_splits)
  have present: "user_present fs1 u"
    by (simp add: fs1 user_present_def)
  have stored: "stored_hash fs1 u = Some h"
    using fresh by (simp add: fs1 stored_hash_def map_of_snoc_fresh del: map_of_append)
  note second = create_user_present [OF present, of lib salt2 p2]
  show ?thesis
    using second stored h u
    by (auto simp: hash_password_def split: option.splits)
qed

theorem create_second_time_witness:
  "create_user example_passlib (lit ''s1'') local_disk (lit ''mentor1'') (lit ''password123'') =
     (Inr True, local_disk(lit ''prepclass.db'' :=
        \<lparr>users_table = Some [(lit ''mentor1'', lit ''s1password123'')],
         history_table = Some [], history_seq = 0\<rparr>)) \<and>
   stored_hash (snd (create_user example_passlib (lit ''s2'')
     (local_disk(lit ''prepclass.db'' :=
        \<lparr>users_table = Some [(lit ''mentor1'', lit ''s1password123'')],
         history_table = Some [], history_seq = 0\<rparr>))
     (lit ''mentor1'') (lit ''otherpassword''))) (lit ''mentor1'') =
     Some (lit ''s1password123'') \<and>
   fst (create_user example_passlib (lit ''s2'')
     (local_disk(lit ''prepclass.db'' :=
        \<lparr>users_table = Some [(lit ''mentor1'', lit ''s1password123'')],
         history_table = Some [], history_seq = 0\<rparr>))
     (lit ''mentor1'') (lit ''otherpassword'')) = Inr False"
proof -
  have h2: "pbkdf2_hash example_passlib (lit ''s2'') (lit ''otherpassword'') =
      Some (lit ''s2otherpassword'')"
    by (simp add: example_passlib_def lit_append [symmetric])
  have h3: "scalar_values (lit ''s2otherpassword'')"
    by simp
  from create_second_time [OF example_created, of "lit ''s2''" "lit ''otherpassword''"]
    example_created example_hash h2 h3
  show ?thesis
    by simp
qed

section \<open>History store: one record per user and topic\<close>

lemma filter_key_empty:
  "(name, tp) \<notin> set (map (\<lambda>r. (username r, topic r)) rows) \<Longrightarrow>
     filter (\<lambda>r. username r = name \<and> topic r = tp) rows = []"
  by (induction rows) auto

lemma distinct_key_filter:
  "distinct (map (\<lambda>r. (username r, topic r)) rows) \<Longrightarrow>
     length (filter (\<lambda>r. username r = name \<and> topic r = tp) rows) \<le> 1"
  by (induction rows) (auto simp: filter_key_empty)

lemma filter_empty_key:
  "filter (\<lambda>r. username r = name \<and> topic r = tp) rows = [] \<Longrightarrow>
     (name, tp) \<notin> set (map (\<lambda>r. (username r, topic r)) rows)"
  by (induction rows) (auto split: if_splits)

declare dec.simps [simp del]

lemma scalar_values_dec: "scalar_values (dec n)"
proof (induction n rule: dec.induct)
  case (1 n)
  have d: "scalar_values [digit m]" if "m < 10" for m
    using that by (simp add: scalar_values_def digit_def surrogate_def)
  show ?case
  proof (cases "n < 10")
    case True
    with d [of n] show ?thesis by (simp add: dec.simps [of n])
  next
    case False
    with "1.IH" d [of "n mod 10"] show ?thesis by (simp add: dec.simps [of n])
  qed
qed

lemma scalar_values_strftime: "scalar_values (strftime now)"
  by (simp add: strftime_def pad2_def scalar_values_dec)

text \<open>What a call that does not raise does to the table.\<close>

lemma save_insert:
  assumes "history_table (fs (lit ''prepclass.db'')) = Some rows"
    and "filter (\<lambda>r. username r = name \<and> topic r = tp) rows = []"
    and "content (lit ''pre_class'') = Some pre" "content (lit ''in_class'') = Some inn"
    and "content (lit ''post_class'') = Some post"
    and "bindable [name, tp, diff, pre, inn, post]"
  shows "fst (save_history_to_db now fs name tp diff content) = Inr ()"
    and "history_table (snd (save_history_to_db now fs name tp diff content) (lit ''prepclass.db'')) =
           Some (rows @ [\<lparr>difficulty = diff, timestamp = strftime now, pre_class = pre,
                   in_class = inn, post_class = post,
                   id_col = Suc (fold max (map id_col rows) (history_seq (fs (lit ''prepclass.db'')))),
                   username = name, topic = tp\<rparr>])"
  using assms
  by (simp_all add: save_history_to_db_def select_history_id_def getitem_def insert_history_def
        Let_def bindable_def scalar_values_strftime)

lemma save_update:
  assumes "history_table (fs (lit ''prepclass.db'')) = Some rows"
    and "filter (\<lambda>r. username r = name \<and> topic r = tp) rows = r0 # rest"
    and "content (lit ''pre_class'') = Some pre" "content (lit ''in_class'') = Some inn"
    and "content (lit ''post_class'') = Some post"
    and "bindable [name, tp, diff, pre, inn, post]"
  shows "fst (save_history_to_db now fs name tp diff content) = Inr ()"
    and "history_table (snd (save_history_to_db now fs name tp diff content) (lit ''prepclass.db'')) =
           Some (map (\<lambda>r. if id_col r = id_col r0
                   then r\<lparr>difficulty := diff, timestamp := strftime now,
                          pre_class := pre, in_class := inn, post_class := post\<rparr>
                   else r) rows)"
  using assms
  by (simp_all add: save_history_to_db_def select_history_id_def getitem_def update_history_def
        Let_def bindable_def scalar_values_strftime)

lemma save_no_table:
  assumes "history_table (fs (lit ''prepclass.db'')) = None"
  shows "save_history_to_db now fs name tp diff content = (Inl OperationalError, fs)"
  using assms by (simp add: save_history_to_db_def select_history_id_def)

lemma save_unbindable_key:
  assumes "history_table (fs (lit ''prepclass.db'')) = Some rows"
    and "\<not> bindable [name, tp]"
  shows "save_history_to_db now fs name tp diff content = (Inl UnicodeEncodeError, fs)"
  using assms by (simp add: save_history_to_db_def select_history_id_def)

lemma save_missing_key:
  assumes "history_table (fs (lit ''prepclass.db'')) = Some rows"
    and "bindable [name, tp]"
    and "content (lit ''pre_class'') = None \<or> content (lit ''in_class'') = None \<or>
         content (lit ''post_class'') = None"
  shows "save_history_to_db now fs name tp diff content = (Inl KeyError, fs)"
proof (cases "content (lit ''pre_class'')")
  case None
  with assms(1,2) show ?thesis
    by (simp add: save_history_to_db_def select_history_id_def getitem_def Let_def)
next
  case pre: (Some pre)
  show ?thesis
  proof (cases "content (lit ''in_class'')")
    case None
    with assms(1,2) pre show ?thesis
      by (simp add: save_history_to_db_def select_history_id_def getitem_def Let_def)
  next
    case inn: (Some inn)
    with assms(3) pre have "content (lit ''post_class'') = None" by simp
    with assms(1,2) pre inn show ?thesis
      by (simp add: save_history_to_db_def select_history_id_def getitem_def Let_def)
  qed
qed

lemma save_unbindable_values:
  assumes "history_table (fs (lit ''prepclass.db'')) = Some rows"
    and "bindable [name, tp]"
    and "content (lit ''pre_class'') = Some pre" "content (lit ''in_class'') = Some inn"
    and "content (lit ''post_class'') = Some post"
    and "\<not> bindable [diff, pre, inn, post]"
  shows "save_history_to_db now fs name tp diff content = (Inl UnicodeEncodeError, fs)"
proof (cases "filter (\<lambda>r. username r = name \<and> topic r = tp) rows")
  case Nil
  with assms show ?thesis
    by (simp add: save_history_to_db_def select_history_id_def getitem_def Let_def
          insert_history_def bindable_def)
next
  case (Cons r0 rest)
  with assms show ?thesis
    by (simp add: save_history_to_db_def select_history_id_def getitem_def Let_def
          update_history_def bindable_def)
qed

lemma save_unencodable:
  assumes "history_table (fs (lit ''prepclass.db'')) \<noteq> None"
    and "content (lit ''pre_class'') = Some pre" "content (lit ''in_class'') = Some inn"
    and "content (lit ''post_class'') = Some post"
    and "\<not> bindable [name, tp, diff, pre, inn, post]"
  shows "save_history_to_db now fs name tp diff content = (Inl UnicodeEncodeError, fs)"
proof -
  from assms(1) obtain rows where rows: "history_table (fs (lit ''prepclass.db'')) = Some rows"
    by blast
  show ?thesis
  proof (cases "bindable [name, tp]")
    case False
    with rows show ?thesis by (rule save_unbindable_key)
  next
    case True
    with assms(5) have "\<not> bindable [diff, pre, inn, post]"
      by (simp add: bindable_def)
    with rows True assms(2-4) show ?thesis by (rule save_unbindable_values)
  qed
qed

text \<open>The ways a call can end.\<close>

lemma save_outcomes:
  obtains (no_table) "history_table (fs (lit ''prepclass.db'')) = None"
      "save_history_to_db now fs name tp diff content = (Inl OperationalError, fs)"
  | (raised) e where "save_history_to_db now fs name tp diff content = (Inl e, fs)"
      "e = UnicodeEncodeError \<or> e = KeyError"
      "history_table (fs (lit ''prepclass.db'')) \<noteq> None"
  | (returned) rows pre inn post where
      "history_table (fs (lit ''prepclass.db'')) = Some rows"
      "content (lit ''pre_class'') = Some pre" "content (lit ''in_class'') = Some inn"
      "content (lit ''post_class'') = Some post"
      "bindable [name, tp, diff, pre, inn, post]"
      "fst (save_history_to_db now fs name tp diff content) = Inr ()"
proof (cases "history_table (fs (lit ''prepclass.db''))")
  case None
  from None save_no_table [where fs = fs, OF None] show ?thesis by (rule no_table)
next
  case (Some rows)
  show ?thesis
  proof (cases "bindable [name, tp]")
    case False
    from save_unbindable_key [where fs = fs, OF Some False] Some show ?thesis
      by (intro raised [of UnicodeEncodeError]) simp_all
  next
    case key: True
    show ?thesis
    proof (cases "content (lit ''pre_class'') = None \<or> content (lit ''in_class'') = None \<or>
         content (lit ''post_class'') = None")
      case True
      from save_missing_key [where fs = fs and content = content, OF Some key True] Some
      show ?thesis
        by (intro raised [of KeyError]) simp_all
    next
      case False
      then obtain pre inn post where c: "content (lit ''pre_class'') = Some pre"
        "content (lit ''in_class'') = Some inn" "content (lit ''post_class'') = Some post"
        by auto
      show ?thesis
      proof (cases "bindable [diff, pre, inn, post]")
        case False
        from save_unbindable_values [where fs = fs and content = content, OF Some key c False]
          Some
        show ?thesis
          by (intro raised [of UnicodeEncodeError]) simp_all
      next
        case True
        with key have b: "bindable [name, tp, diff, pre, inn, post]"
          by (simp add: bindable_def)
        have "fst (save_history_to_db now fs name tp diff content) = Inr ()"
        proof (cases "filter (\<lambda>r. username r = name \<and> topic r = tp) rows")
          case Nil
          from save_insert(1) [where fs = fs and content = content, OF Some Nil c b]
          show ?thesis .
        next
          case (Cons r0 rest)
          from save_update(1) [where fs = fs and content = content, OF Some Cons c b]
          show ?thesis .
        qed
        with Some c b show ?thesis by (rule returned)
      qed
    qed
  qed
qed

lemma save_raises:
  assumes "fst (save_history_to_db now fs name tp diff content) = Inl e"
  shows "snd (save_history_to_db now fs name tp diff content) = fs"
  using assms by (cases rule: save_outcomes [of fs now name tp diff content]) simp_all

lemma save_returned:
  assumes "fst (save_history_to_db now fs name tp diff content) = Inr ()"
  shows "\<exists>rows pre inn post. history_table (fs (lit ''prepclass.db'')) = Some rows \<and>
           content (lit ''pre_class'') = Some pre \<and> content (lit ''in_class'') = Some inn \<and>
           content (lit ''post_class'') = Some post \<and>
           bindable [name, tp, diff, pre, inn, post]"
  using assms by (cases rule: save_outcomes [of fs now name tp diff content]) auto

lemma map_key_update:
  "map (\<lambda>r. (username r, topic r))
     (map (\<lambda>r. if id_col r = i
             then r\<lparr>difficulty := diff, timestamp := ts, pre_class := pre, in_class := inn,
                    post_class := post\<rparr>
             else r) rows) =
   map (\<lambda>r. (username r, topic r)) rows"
  by (induction rows) auto

lemma save_keeps_invariant:
  assumes "one_record_per_topic fs"
  shows "one_record_per_topic (snd (save_history_to_db now fs name tp diff content))"
proof (cases "fst (save_history_to_db now fs name tp diff content)")
  case (Inl e)
  then show ?thesis using assms by (simp add: save_raises)
next
  case (Inr u)
  then have ok: "fst (save_history_to_db now fs name tp diff content) = Inr ()" by simp
  from save_returned [OF ok] obtain rows pre inn post where
    rows: "history_table (fs (lit ''prepclass.db'')) = Some rows" and
    c: "content (lit ''pre_class'') = Some pre" "content (lit ''in_class'') = Some inn"
       "content (lit ''post_class'') = Some post"
       "bindable [name, tp, diff, pre, inn, post]"
    by blast
  from assms rows have d: "distinct (map (\<lambda>r. (username r, topic r)) rows)"
    by (simp add: one_record_per_topic_def)
  show ?thesis
  proof (cases "filter (\<lambda>r. username r = name \<and> topic r = tp) rows")
    case Nil
    from filter_empty_key [OF Nil] d show ?thesis
      by (simp add: one_record_per_topic_def save_insert(2) [where fs = fs and content = content, OF rows Nil c])
  next
    case (Cons r0 rest)
    from d show ?thesis
      by (simp add: one_record_per_topic_def save_update(2) [where fs = fs and content = content, OF rows Cons c] map_key_update
            del: map_map)
  qed
qed

lemma upserts_keep_invariant:
  "one_record_per_topic fs \<Longrightarrow> one_record_per_topic (upserts fs calls)"
  by (induction fs calls rule: upserts.induct) (simp_all add: save_keeps_invariant)

lemma invariant_records:
  assumes "one_record_per_topic fs"
  shows "length (records_for fs name tp) \<le> 1"
proof (cases "history_table (fs (lit ''prepclass.db''))")
  case None
  then show ?thesis by (simp add: records_for_def)
next
  case (Some rows)
  with assms have "distinct (map (\<lambda>r. (username r, topic r)) rows)"
    by (simp add: one_record_per_topic_def)
  from distinct_key_filter [OF this, of name tp] Some show ?thesis
    by (simp add: records_for_def)
qed

lemma filter_update:
  "filter (\<lambda>r. username r = name \<and> topic r = tp)
     (map (\<lambda>r. if id_col r = i
             then r\<lparr>difficulty := diff, timestamp := ts, pre_class := pre, in_class := inn,
                    post_class := post\<rparr>
             else r) rows) =
   map (\<lambda>r. if id_col r = i
           then r\<lparr>difficulty := diff, timestamp := ts, pre_class := pre, in_class := inn,
                  post_class := post\<rparr>
           else r) (filter (\<lambda>r. username r = name \<and> topic r = tp) rows)"
  by (induction rows) auto

lemma save_result:
  assumes inv: "one_record_per_topic fs"
    and c: "content (lit ''pre_class'') = Some pre" "content (lit ''in_class'') = Some inn"
       "content (lit ''post_class'') = Some post"
       "bindable [name, tp, diff, pre, inn, post]"
  shows "fst (save_history_to_db now fs name tp diff content) = Inr () \<and>
         (\<exists>r. records_for (snd (save_history_to_db now fs name tp diff content)) name tp = [r] \<and>
              username r = name \<and> topic r = tp \<and>
              difficulty r = diff \<and> timestamp r = strftime now \<and>
              pre_class r = pre \<and> in_class r = inn \<and> post_class r = post)"
proof -
  from inv obtain rows where rows: "history_table (fs (lit ''prepclass.db'')) = Some rows"
    and d: "distinct (map (\<lambda>r. (username r, topic r)) rows)"
    by (auto simp: one_record_per_topic_def split: option.splits)
  show ?thesis
  proof (cases "filter (\<lambda>r. username r = name \<and> topic r = tp) rows")
    case Nil
    then show ?thesis
      by (simp add: records_for_def save_insert [where fs = fs and content = content, OF rows Nil c])
  next
    case (Cons r0 rest)
    from distinct_key_filter [OF d, of name tp] Cons have rest: "rest = []"
      by simp
    from Cons have "r0 \<in> set (filter (\<lambda>r. username r = name \<and> topic r = tp) rows)"
      by simp
    then have r0: "username r0 = name" "topic r0 = tp"
      by simp_all
    show ?thesis
      using r0 Cons rest
      by (simp add: records_for_def save_update [where fs = fs and content = content, OF rows Cons c] filter_update)
  qed
qed


text \<open>
  On an empty history table, two calls for the user "mentor1" and the topic that consists
  of the lone surrogate \<open>U+D800\<close> both raise, and no row is left for the pair.
\<close>

theorem upsert_one_record_counterexample:
  "history_table (local_disk (lit ''prepclass.db'')) = Some [] \<and>
   fst (save_history_to_db jan_2nd
          (snd (save_history_to_db jan_1st local_disk (lit ''mentor1'') [0xD800]
                  (lit ''Beginner'') first_content))
          (lit ''mentor1'') [0xD800] (lit ''Advanced'') second_content) =
     Inl UnicodeEncodeError \<and>
   records_for
     (snd (save_history_to_db jan_2nd
             (snd (save_history_to_db jan_1st local_disk (lit ''mentor1'') [0xD800]
                     (lit ''Beginner'') first_content))
             (lit ''mentor1'') [0xD800] (lit ''Advanced'') second_content))
     (lit ''mentor1'') [0xD800] = []"
  by (simp add: save_history_to_db_def select_history_id_def local_disk_db bindable_def
        surrogate_not_scalar records_for_def)

text \<open>
  C1, amended. Starting from an empty history table, after any sequence of calls of
  \<open>save_history_to_db\<close> the table holds at most one row for each user and topic. Two more
  calls for the same user and topic, of which the second finds its three documents in
  \<open>content\<close>, leave exactly one row for the pair, holding the difficulty, the three
  documents and the timestamp of the second call, provided that the user name, the topic,
  the difficulty and the three documents of the second call are free of surrogate code
  points; otherwise the second call raises UnicodeEncodeError and changes nothing.
\<close>

theorem upsert_one_record:
  assumes "history_table (fs (lit ''prepclass.db'')) = Some []"
    and "content2 (lit ''pre_class'') = Some pre2" and "content2 (lit ''in_class'') = Some in2"
    and "content2 (lit ''post_class'') = Some post2"
  shows "length (records_for (upserts fs calls) name tp) \<le> 1 \<and>
         (if bindable [name, tp, diff2, pre2, in2, post2]
          then \<exists>r. records_for
                 (snd (save_history_to_db now2
                    (snd (save_history_to_db now1 (upserts fs calls) name tp diff1 content1))
                    name tp diff2 content2))
                 name tp = [r] \<and>
              difficulty r = diff2 \<and> timestamp r = strftime now2 \<and>
              pre_class r = pre2 \<and> in_class r = in2 \<and> post_class r = post2
          else save_history_to_db now2
                 (snd (save_history_to_db now1 (upserts fs calls) name tp diff1 content1))
                 name tp diff2 content2 =
               (Inl UnicodeEncodeError,
                snd (save_history_to_db now1 (upserts fs calls) name tp diff1 content1)))"
proof -
  from assms(1) have "one_record_per_topic fs"
    by (simp add: one_record_per_topic_def)
  then have inv: "one_record_per_topic (upserts fs calls)"
    by (rule upserts_keep_invariant)
  then have inv1: "one_record_per_topic
      (snd (save_history_to_db now1 (upserts fs calls) name tp diff1 content1))"
    by (rule save_keeps_invariant)
  then have tbl: "history_table
      (snd (save_history_to_db now1 (upserts fs calls) name tp diff1 content1)
         (lit ''prepclass.db'')) \<noteq> None"
    by (auto simp: one_record_per_topic_def split: option.splits)
  show ?thesis
  proof (cases "bindable [name, tp, diff2, pre2, in2, post2]")
    case True
    from save_result [where content = content2, OF inv1 assms(2-4) True]
      invariant_records [OF inv] True
    show ?thesis by (simp only: if_True) blast
  next
    case False
    from save_unencodable [where content = content2 and
        fs = "snd (save_history_to_db now1 (upserts fs calls) name tp diff1 content1)",
        OF tbl assms(2-4) False]
      invariant_records [OF inv] False
    show ?thesis by (simp only: if_False)
  qed
qed

lemma strftime_jan_1st: "strftime jan_1st = lit ''2024-01-01 10:00''"
  by code_simp

lemma strftime_jan_2nd: "strftime jan_2nd = lit ''2024-01-02 09:00''"
  by code_simp

lemma second_content_keys:
  "second_content (lit ''pre_class'') = Some (lit ''reading 2'')"
  "second_content (lit ''in_class'') = Some (lit ''plan 2'')"
  "second_content (lit ''post_class'') = Some (lit ''quiz 2'')"
  by (simp_all add: second_content_def)

theorem upsert_one_record_witness:
  "history_table (local_disk (lit ''prepclass.db'')) = Some [] \<and>
   second_content (lit ''pre_class'') = Some (lit ''reading 2'') \<and>
   second_content (lit ''in_class'') = Some (lit ''plan 2'') \<and>
   second_content (lit ''post_class'') = Some (lit ''quiz 2'') \<and>
   bindable [lit ''mentor1'', lit ''Recursion'', lit ''Advanced'', lit ''reading 2'',
             lit ''plan 2'', lit ''quiz 2''] \<and>
   length (records_for
     (upserts local_disk
        [(jan_1st, lit ''mentor1'', lit ''Sorting'', lit ''Beginner'', first_content)])
     (lit ''mentor1'') (lit ''Recursion'')) \<le> 1 \<and>
   (\<exists>r. records_for
          (snd (save_history_to_db jan_2nd
             (snd (save_history_to_db jan_1st
                (upserts local_disk
                   [(jan_1st, lit ''mentor1'', lit ''Sorting'', lit ''Beginner'',
                     first_content)])
                (lit ''mentor1'') (lit ''Recursion'') (lit ''Beginner'') first_content))
             (lit ''mentor1'') (lit ''Recursion'') (lit ''Advanced'') second_content))
          (lit ''mentor1'') (lit ''Recursion'') = [r] \<and>
        difficulty r = lit ''Advanced'' \<and> timestamp r = lit ''2024-01-02 09:00'' \<and>
        pre_class r = lit ''reading 2'' \<and> in_class r = lit ''plan 2'' \<and>
        post_class r = lit ''quiz 2'')"
proof -
  have b: "bindable [lit ''mentor1'', lit ''Recursion'', lit ''Advanced'', lit ''reading 2'',
             lit ''plan 2'', lit ''quiz 2'']"
    by (simp add: bindable_def)
  from upsert_one_record [where fs = local_disk and ?content2.0 = second_content,
      OF local_disk_history second_content_keys,
      of "[(jan_1st, lit ''mentor1'', lit ''Sorting'', lit ''Beginner'', first_content)]"
         "lit ''mentor1''" "lit ''Recursion''" "lit ''Advanced''" jan_2nd jan_1st
         "lit ''Beginner''" first_content]
    local_disk_history second_content_keys b
  show ?thesis
    by (simp only: strftime_jan_2nd if_True simp_thms)
qed

section \<open>The database file of each operation\<close>

lemma get_db_path_local:
  "(get_db_path cwd = lit ''prepclass.db'') = (\<not> sublist (lit ''streamlit'') cwd)"
  by (simp add: get_db_path_def)

lemma init_db_frame: "q \<noteq> get_db_path cwd \<Longrightarrow> init_db cwd fs q = fs q"
  by (simp add: init_db_def Let_def)

lemma init_db_tables:
  "users_table (init_db cwd fs (get_db_path cwd)) \<noteq> None"
  "history_table (init_db cwd fs (get_db_path cwd)) \<noteq> None"
  by (simp_all add: init_db_def Let_def create_table_if_not_exists_def split: option.splits)

lemma init_db_fresh:
  "(users_table (init_db cwd fresh_disk (lit ''prepclass.db'')) = None) =
     sublist (lit ''streamlit'') cwd"
  "(history_table (init_db cwd fresh_disk (lit ''prepclass.db'')) = None) =
     sublist (lit ''streamlit'') cwd"
  by (simp_all add: init_db_def get_db_path_def fresh_disk_def no_tables_def Let_def
        create_table_if_not_exists_def)

lemma create_user_file:
  assumes "fs (lit ''prepclass.db'') = fs' (lit ''prepclass.db'')"
    and "path \<noteq> lit ''prepclass.db''"
  shows "fst (create_user lib salt fs n p) = fst (create_user lib salt fs' n p)"
    and "snd (create_user lib salt fs n p) (lit ''prepclass.db'') =
         snd (create_user lib salt fs' n p) (lit ''prepclass.db'')"
    and "snd (create_user lib salt fs n p) path = fs path"
  using assms
  by (auto simp: create_user_def Let_def split: sum.splits)

lemma authenticate_user_file:
  assumes "fs (lit ''prepclass.db'') = fs' (lit ''prepclass.db'')"
  shows "authenticate_user lib fs n p = authenticate_user lib fs' n p"
  using assms by (simp add: authenticate_user_def)

lemma save_history_file:
  assumes "fs (lit ''prepclass.db'') = fs' (lit ''prepclass.db'')"
    and "path \<noteq> lit ''prepclass.db''"
  shows "fst (save_history_to_db now fs n tp d c) = fst (save_history_to_db now fs' n tp d c)"
    and "snd (save_history_to_db now fs n tp d c) (lit ''prepclass.db'') =
         snd (save_history_to_db now fs' n tp d c) (lit ''prepclass.db'')"
    and "snd (save_history_to_db now fs n tp d c) path = fs path"
  using assms
  by (auto simp: save_history_to_db_def Let_def split: sum.splits)

lemma load_history_file:
  assumes "fs (lit ''prepclass.db'') = fs' (lit ''prepclass.db'')"
  shows "load_history_from_db fs n = load_history_from_db fs' n"
  using assms by (simp add: load_history_from_db_def)

text \<open>Each operation finds or misses its table in "prepclass.db", and writes there.\<close>

lemma create_user_opens:
  "(fst (create_user lib salt fs n p) = Inl OperationalError) =
     (users_table (fs (lit ''prepclass.db'')) = None \<and> pbkdf2_hash lib salt p \<noteq> None)"
  by (auto simp: create_user_def insert_user_def hash_password_def Let_def
           split: option.splits)

lemma create_user_writes:
  "fst (create_user lib salt fs n p) = Inr True \<Longrightarrow>
     user_present (snd (create_user lib salt fs n p)) n \<and>
     stored_hash (snd (create_user lib salt fs n p)) n = pbkdf2_hash lib salt p"
  by (auto simp: create_user_def insert_user_def hash_password_def Let_def user_present_def
        stored_hash_def map_of_snoc_fresh
      simp del: map_of_append split: option.splits if_splits)

lemma authenticate_user_opens:
  "(authenticate_user lib fs n p = Inl OperationalError) =
     (users_table (fs (lit ''prepclass.db'')) = None)"
  by (auto simp: authenticate_user_def select_password_hash_def verify_password_def Let_def
           split: option.splits)

lemma save_history_opens:
  "(fst (save_history_to_db now fs n tp d c) = Inl OperationalError) =
     (history_table (fs (lit ''prepclass.db'')) = None)"
  by (auto simp: save_history_to_db_def select_history_id_def update_history_def
        insert_history_def getitem_def Let_def
      split: option.splits sum.splits)

lemma load_history_opens:
  "(load_history_from_db fs n = Inl OperationalError) =
     (history_table (fs (lit ''prepclass.db'')) = None)"
  by (auto simp: load_history_from_db_def select_history_def Let_def split: option.splits)

lemma fetchone_map_of:
  "fetchone (map snd (filter (\<lambda>r. fst r = n) rows)) = map_of rows n"
  by (induction rows) auto

lemma authenticate_user_reads:
  assumes "authenticate_user lib fs n p = Inr True"
  shows "\<exists>h. stored_hash fs n = Some h \<and> pbkdf2_verify lib p h = Some True"
proof (cases "users_table (fs (lit ''prepclass.db''))")
  case None
  with assms show ?thesis
    by (simp add: authenticate_user_def select_password_hash_def)
next
  case (Some rows)
  show ?thesis
  proof (cases "scalar_values n")
    case False
    with assms Some show ?thesis
      by (simp add: authenticate_user_def select_password_hash_def bindable_def)
  next
    case True
    with assms Some show ?thesis
      by (auto simp: authenticate_user_def select_password_hash_def bindable_def
            stored_hash_def fetchone_map_of verify_password_def
          split: option.splits)
  qed
qed

lemma save_history_writes:
  assumes "fst (save_history_to_db now fs n tp d c) = Inr ()"
  shows "records_for (snd (save_history_to_db now fs n tp d c)) n tp \<noteq> []"
proof -
  from save_returned [OF assms] obtain rows pre inn post where
    rows: "history_table (fs (lit ''prepclass.db'')) = Some rows" and
    k: "c (lit ''pre_class'') = Some pre" "c (lit ''in_class'') = Some inn"
       "c (lit ''post_class'') = Some post" "bindable [n, tp, d, pre, inn, post]"
    by blast
  show ?thesis
  proof (cases "filter (\<lambda>r. username r = n \<and> topic r = tp) rows")
    case Nil
    then show ?thesis
      by (simp add: records_for_def save_insert(2) [where fs = fs and content = c, OF rows Nil k])
  next
    case (Cons r0 rest)
    then show ?thesis
      by (simp add: records_for_def
            save_update(2) [where fs = fs and content = c, OF rows Cons k] filter_update)
  qed
qed

lemma keys_setitem: "fst ` set (setitem k v d) = insert k (fst ` set d)"
  by (induction d) auto

lemma keys_fold_setitem:
  "fst ` set (fold (\<lambda>row h. setitem (topic row) (g row) h) rows acc) =
     fst ` set acc \<union> topic ` set rows"
proof (induction rows arbitrary: acc)
  case Nil
  then show ?case by simp
next
  case (Cons r rows)
  from Cons.IH [of "setitem (topic r) (g r) acc"] show ?case
    by (simp add: keys_setitem)
qed

lemma set_order_by: "set (order_by_timestamp_desc rows) = set rows"
  by (simp add: order_by_timestamp_desc_def)

lemma load_history_reads:
  assumes "load_history_from_db fs n = Inr h"
  shows "\<exists>rows. history_table (fs (lit ''prepclass.db'')) = Some rows \<and>
           fst ` set h = topic ` {r \<in> set rows. username r = n}"
proof (cases "history_table (fs (lit ''prepclass.db''))")
  case None
  with assms show ?thesis
    by (simp add: load_history_from_db_def select_history_def)
next
  case (Some rows)
  show ?thesis
  proof (cases "scalar_values n")
    case False
    with assms Some show ?thesis
      by (simp add: load_history_from_db_def select_history_def bindable_def)
  next
    case True
    with assms Some have "h = fold (\<lambda>row h. setitem (topic row)
                 \<lparr>difficulty = difficulty row, timestamp = timestamp row,
                  pre_class = pre_class row, in_class = in_class row,
                  post_class = post_class row\<rparr> h)
            (order_by_timestamp_desc (filter (\<lambda>r. username r = n) rows)) []"
      by (simp add: load_history_from_db_def select_history_def bindable_def)
    then have "fst ` set h = topic ` {r \<in> set rows. username r = n}"
      by (simp add: keys_fold_setitem set_order_by)
    with Some show ?thesis by simp
  qed
qed

text \<open>
  C10. \<open>create_user\<close>, \<open>authenticate_user\<close>, \<open>save_history_to_db\<close> and
  \<open>load_history_from_db\<close> open the database at the path "prepclass.db": each of them
  raises OperationalError exactly when its table is missing there, what they return is
  read from there, and what they store is found there. No other path matters to them:
  their results are the same on two file systems that agree at "prepclass.db", and every
  other path keeps its content. \<open>init_db\<close> creates the two tables at \<open>get_db_path cwd\<close> and
  touches no other path. \<open>get_db_path cwd\<close> is "prepclass.db" exactly when \<open>cwd\<close> does not
  contain "streamlit". So after \<open>init_db\<close> on a disk without database files, the
  operations miss their tables exactly when \<open>cwd\<close> contains "streamlit".
\<close>

theorem persistence_files:
  assumes "fs (lit ''prepclass.db'') = fs' (lit ''prepclass.db'')"
    and "path \<noteq> lit ''prepclass.db''"
  shows "fst (create_user lib salt fs n p) = fst (create_user lib salt fs' n p) \<and>
         snd (create_user lib salt fs n p) (lit ''prepclass.db'') =
           snd (create_user lib salt fs' n p) (lit ''prepclass.db'') \<and>
         snd (create_user lib salt fs n p) path = fs path \<and>
         authenticate_user lib fs n p = authenticate_user lib fs' n p \<and>
         fst (save_history_to_db now fs n tp d c) = fst (save_history_to_db now fs' n tp d c) \<and>
         snd (save_history_to_db now fs n tp d c) (lit ''prepclass.db'') =
           snd (save_history_to_db now fs' n tp d c) (lit ''prepclass.db'') \<and>
         snd (save_history_to_db now fs n tp d c) path = fs path \<and>
         load_history_from_db fs n = load_history_from_db fs' n \<and>
         (fst (create_user lib salt fs n p) = Inl OperationalError) =
           (users_table (fs (lit ''prepclass.db'')) = None \<and> pbkdf2_hash lib salt p \<noteq> None) \<and>
         (authenticate_user lib fs n p = Inl OperationalError) =
           (users_table (fs (lit ''prepclass.db'')) = None) \<and>
         (fst (save_history_to_db now fs n tp d c) = Inl OperationalError) =
           (history_table (fs (lit ''prepclass.db'')) = None) \<and>
         (load_history_from_db fs n = Inl OperationalError) =
           (history_table (fs (lit ''prepclass.db'')) = None) \<and>
         (fst (create_user lib salt fs n p) = Inr True \<longrightarrow>
            user_present (snd (create_user lib salt fs n p)) n \<and>
            stored_hash (snd (create_user lib salt fs n p)) n = pbkdf2_hash lib salt p) \<and>
         (authenticate_user lib fs n p = Inr True \<longrightarrow>
            (\<exists>h. stored_hash fs n = Some h \<and> pbkdf2_verify lib p h = Some True)) \<and>
         (fst (save_history_to_db now fs n tp d c) = Inr () \<longrightarrow>
            records_for (snd (save_history_to_db now fs n tp d c)) n tp \<noteq> []) \<and>
         (\<forall>h. load_history_from_db fs n = Inr h \<longrightarrow>
            (\<exists>rows. history_table (fs (lit ''prepclass.db'')) = Some rows \<and>
               fst ` set h = topic ` {r \<in> set rows. username r = n})) \<and>
         (\<forall>q. q \<noteq> get_db_path cwd \<longrightarrow> init_db cwd fs q = fs q) \<and>
         users_table (init_db cwd fs (get_db_path cwd)) \<noteq> None \<and>
         history_table (init_db cwd fs (get_db_path cwd)) \<noteq> None \<and>
         (get_db_path cwd = lit ''prepclass.db'') = (\<not> sublist (lit ''streamlit'') cwd) \<and>
         (sublist (lit ''streamlit'') cwd \<longrightarrow>
            init_db cwd fs (lit ''prepclass.db'') = fs (lit ''prepclass.db'')) \<and>
         (authenticate_user lib (init_db cwd fresh_disk) n p = Inl OperationalError) =
           sublist (lit ''streamlit'') cwd \<and>
         (fst (save_history_to_db now (init_db cwd fresh_disk) n tp d c) = Inl OperationalError) =
           sublist (lit ''streamlit'') cwd \<and>
         (load_history_from_db (init_db cwd fresh_disk) n = Inl OperationalError) =
           sublist (lit ''streamlit'') cwd \<and>
         (fst (create_user lib salt (init_db cwd fresh_disk) n p) = Inl OperationalError) =
           (sublist (lit ''streamlit'') cwd \<and> pbkdf2_hash lib salt p \<noteq> None)"
proof -
  have kept: "init_db cwd fs (lit ''prepclass.db'') = fs (lit ''prepclass.db'')"
    if "sublist (lit ''streamlit'') cwd"
    using that by (simp add: init_db_frame get_db_path_def)
  note frame = create_user_file [of fs fs' path lib salt n p]
    authenticate_user_file [of fs fs' lib n p]
    save_history_file [of fs fs' path now n tp d c] load_history_file [of fs fs' n]
  note opens = create_user_opens [of lib salt fs n p] authenticate_user_opens [of lib fs n p]
    save_history_opens [of now fs n tp d c] load_history_opens [of fs n]
  note uses = create_user_writes [of lib salt fs n p] authenticate_user_reads [of lib fs n p]
    save_history_writes [of now fs n tp d c] load_history_reads [of fs n]
  note init = init_db_frame [of _ cwd fs] init_db_tables [of cwd fs] get_db_path_local [of cwd]
  note fresh = authenticate_user_opens [of lib "init_db cwd fresh_disk" n p]
    save_history_opens [of now "init_db cwd fresh_disk" n tp d c]
    load_history_opens [of "init_db cwd fresh_disk" n]
    create_user_opens [of lib salt "init_db cwd fresh_disk" n p]
    init_db_fresh [of cwd]
  have a: "fst (create_user lib salt fs n p) = fst (create_user lib salt fs' n p) \<and>
         snd (create_user lib salt fs n p) (lit ''prepclass.db'') =
           snd (create_user lib salt fs' n p) (lit ''prepclass.db'') \<and>
         snd (create_user lib salt fs n p) path = fs path \<and>
         authenticate_user lib fs n p = authenticate_user lib fs' n p \<and>
         fst (save_history_to_db now fs n tp d c) = fst (save_history_to_db now fs' n tp d c) \<and>
         snd (save_history_to_db now fs n tp d c) (lit ''prepclass.db'') =
           snd (save_history_to_db now fs' n tp d c) (lit ''prepclass.db'') \<and>
         snd (save_history_to_db now fs n tp d c) path = fs path \<and>
         load_history_from_db fs n = load_history_from_db fs' n"
    using assms frame by simp
  from a opens uses init kept fresh show ?thesis
    by (simp only: simp_thms) blast
qed


theorem persistence_files_witness:
  "local_disk (lit ''prepclass.db'') =
     (init_db (lit ''/home/app'') cloud_disk) (lit ''prepclass.db'') \<and>
   lit ''/tmp/prepclass.db'' \<noteq> lit ''prepclass.db'' \<and>
   get_db_path (lit ''/mount/src/streamlit-app'') = lit ''/tmp/prepclass.db'' \<and>
   fst (create_user example_passlib (lit ''s1'') cloud_disk (lit ''mentor1'')
          (lit ''password123'')) = Inl OperationalError \<and>
   authenticate_user example_passlib cloud_disk (lit ''mentor1'') (lit ''password123'') =
     Inl OperationalError \<and>
   fst (save_history_to_db jan_1st cloud_disk (lit ''mentor1'') (lit ''Recursion'')
          (lit ''Beginner'') first_content) = Inl OperationalError \<and>
   load_history_from_db cloud_disk (lit ''mentor1'') = Inl OperationalError \<and>
   fst (create_user example_passlib (lit ''s1'') local_disk (lit ''mentor1'')
          (lit ''password123'')) = Inr True \<and>
   snd (create_user example_passlib (lit ''s1'') local_disk (lit ''mentor1'')
          (lit ''password123'')) (lit ''/tmp/prepclass.db'') =
     local_disk (lit ''/tmp/prepclass.db'') \<and>
   user_present (snd (create_user example_passlib (lit ''s1'') local_disk (lit ''mentor1'')
          (lit ''password123''))) (lit ''mentor1'') \<and>
   authenticate_user example_passlib local_disk (lit ''mentor1'') (lit ''password123'') =
     Inr False \<and>
   load_history_from_db local_disk (lit ''mentor1'') = Inr []"
proof -
  have h1: "local_disk (lit ''prepclass.db'') =
     (init_db (lit ''/home/app'') cloud_disk) (lit ''prepclass.db'')"
    by (simp add: local_disk_db init_db_def get_db_path_def streamlit_not_local cloud_disk_db
          no_tables_def create_table_if_not_exists_def Let_def)
  have h2: "lit ''/tmp/prepclass.db'' \<noteq> lit ''prepclass.db''"
    by simp
  have h3: "get_db_path (lit ''/mount/src/streamlit-app'') = lit ''/tmp/prepclass.db''"
    by (simp add: get_db_path_def streamlit_in_cloud)
  have h4: "fst (create_user example_passlib (lit ''s1'') local_disk (lit ''mentor1'')
          (lit ''password123'')) = Inr True"
    by (simp add: example_created)
  have h5: "authenticate_user example_passlib local_disk (lit ''mentor1'')
      (lit ''password123'') = Inr False"
    by (simp add: authenticate_absent [where fs = local_disk and rows = "[]",
          OF local_disk_users])
  have h6: "load_history_from_db local_disk (lit ''mentor1'') = Inr []"
    by (simp add: load_history_from_db_def select_history_def local_disk_db bindable_def
          order_by_timestamp_desc_def)
  have h7: "pbkdf2_hash example_passlib (lit ''s1'') (lit ''password123'') \<noteq> None"
    by (simp add: example_hash)
  note t = persistence_files [where fs = local_disk
      and fs' = "init_db (lit ''/home/app'') cloud_disk"
      and path = "lit ''/tmp/prepclass.db''" and lib = example_passlib
      and salt = "lit ''s1''" and n = "lit ''mentor1''" and p = "lit ''password123''"
      and cwd = "lit ''/mount/src/streamlit-app''" and now = jan_1st
      and tp = "lit ''Recursion''" and d = "lit ''Beginner''" and c = first_content,
      OF h1 h2]
  from t h1 h2 h3 h4 h5 h6 h7 streamlit_in_cloud show ?thesis
    unfolding cloud_disk_def by (simp only: simp_thms)
qed

section \<open>Timestamps: the stored string orders like the clock\<close>

lemma digit_less: "(digit a < digit b) = (a < b)"
  by (simp add: digit_def)

lemma digit_eq: "(digit a = digit b) = (a = b)"
  by (simp add: digit_def)

lemma digit_0: "lit ''0'' = [digit 0]"
  by (simp add: lit_Cons digit_def)

lemma less_by_digits:
  "((a::nat) < b) = (a div 10 < b div 10 \<or> (a div 10 = b div 10 \<and> a mod 10 < b mod 10))"
proof -
  have a: "a = 10 * (a div 10) + a mod 10" and b: "b = 10 * (b div 10) + b mod 10"
    by simp_all
  have "a mod 10 < 10" "b mod 10 < 10" by simp_all
  with a b show ?thesis by linarith
qed

lemma eq_by_digits: "((a::nat) = b) = (a div 10 = b div 10 \<and> a mod 10 = b mod 10)"
  by (metis div_mult_mod_eq)

lemma dec_not_Nil: "dec m \<noteq> []"
  by (cases "m < 10") (simp_all add: dec.simps [of m])

lemma length_dec_small: "(length (dec n) = Suc 0) = (n < 10)"
proof (cases "n < 10")
  case True
  then show ?thesis by (simp add: dec.simps [of n])
next
  case False
  with dec_not_Nil [of "n div 10"] show ?thesis
    by (simp add: dec.simps [of n])
qed

text \<open>Two decimal numerals of the same length compare as the numbers do.\<close>

lemma dec_le:
  "length (dec a) = length (dec b) \<Longrightarrow>
     (dec a @ xs \<le> dec b @ ys) = (a < b \<or> (a = b \<and> xs \<le> ys))"
proof (induction a arbitrary: b xs ys rule: dec.induct)
  case (1 a)
  show ?case
  proof (cases "a < 10")
    case True
    then have "length (dec a) = Suc 0" by (simp add: length_dec_small)
    with "1.prems" have "length (dec b) = Suc 0" by simp
    then have b: "b < 10" by (simp add: length_dec_small)
    from True b show ?thesis
      by (simp add: dec.simps [of a] dec.simps [of b] digit_less digit_eq)
  next
    case False
    then have "length (dec a) \<noteq> Suc 0" by (simp add: length_dec_small)
    with "1.prems" have "length (dec b) \<noteq> Suc 0" by simp
    then have b: "\<not> b < 10" by (simp add: length_dec_small)
    from "1.prems" False b have len: "length (dec (a div 10)) = length (dec (b div 10))"
      by (simp add: dec.simps [of a] dec.simps [of b])
    have "(dec a @ xs \<le> dec b @ ys) =
          (dec (a div 10) @ (digit (a mod 10) # xs) \<le> dec (b div 10) @ (digit (b mod 10) # ys))"
      using False b by (simp add: dec.simps [of a] dec.simps [of b])
    also have "\<dots> = (a div 10 < b div 10 \<or>
        (a div 10 = b div 10 \<and> digit (a mod 10) # xs \<le> digit (b mod 10) # ys))"
      using "1.IH" [OF False len] .
    also have "\<dots> = (a div 10 < b div 10 \<or>
        (a div 10 = b div 10 \<and>
           (a mod 10 < b mod 10 \<or> (a mod 10 = b mod 10 \<and> xs \<le> ys))))"
      by (simp add: digit_less digit_eq)
    also have "\<dots> = (a < b \<or> (a = b \<and> xs \<le> ys))"
      using less_by_digits [of a b] eq_by_digits [of a b] by blast
    finally show ?thesis .
  qed
qed

lemma length_dec_year:
  assumes "1000 \<le> y" "y \<le> 9999"
  shows "length (dec y) = 4"
proof -
  from assms have "\<not> y < 10" "\<not> y div 10 < 10" "\<not> y div 10 div 10 < 10"
    "y div 10 div 10 div 10 < 10"
    by (simp_all add: div_mult2_eq [symmetric] less_mult_imp_div_less)
  then show ?thesis
    by (simp add: dec.simps [of y] dec.simps [of "y div 10"] dec.simps [of "y div 10 div 10"]
          dec.simps [of "y div 10 div 10 div 10"])
qed

lemma pad2_digits: "n < 100 \<Longrightarrow> pad2 n = [digit (n div 10), digit (n mod 10)]"
  by (simp add: pad2_def dec.simps [of n] dec.simps [of "n div 10"] digit_0)

lemma pad2_le:
  assumes "a < 100" "b < 100"
  shows "(pad2 a @ xs \<le> pad2 b @ ys) = (a < b \<or> (a = b \<and> xs \<le> ys))"
proof -
  from assms have "a div 10 < 10" "b div 10 < 10" "a mod 10 < 10" "b mod 10 < 10"
    by simp_all
  then have "(pad2 a @ xs \<le> pad2 b @ ys) =
      (a div 10 < b div 10 \<or>
        (a div 10 = b div 10 \<and>
           (a mod 10 < b mod 10 \<or> (a mod 10 = b mod 10 \<and> xs \<le> ys))))"
    using assms by (simp add: pad2_digits digit_less digit_eq)
  also have "\<dots> = (a < b \<or> (a = b \<and> xs \<le> ys))"
    using less_by_digits [of a b] eq_by_digits [of a b] by blast
  finally show ?thesis .
qed

text \<open>
  C6. For two date-times with four-digit years, the first is no later than the second
  exactly when its string in the format \<open>%Y-%m-%d %H:%M\<close> is lexicographically no
  greater than the string of the second.
\<close>

theorem timestamp_order:
  assumes "four_digit_datetime t1" and "four_digit_datetime t2"
  shows "datetime_le t1 t2 = (strftime t1 \<le> strftime t2)"
proof -
  from assms have len: "length (dec (year t1)) = length (dec (year t2))"
    by (simp add: four_digit_datetime_def length_dec_year)
  from assms have m: "month t1 < 100" "month t2 < 100"
    and d: "day t1 < 100" "day t2 < 100"
    and h: "hour t1 < 100" "hour t2 < 100"
    and mi: "minute t1 < 100" "minute t2 < 100"
    by (simp_all add: four_digit_datetime_def)
  have last: "(pad2 (minute t1) \<le> pad2 (minute t2)) = (minute t1 \<le> minute t2)"
    using pad2_le [OF mi, of "[]" "[]"] by auto
  show ?thesis
    unfolding strftime_def datetime_le_def
    by (simp only: dec_le [OF len] pad2_le [OF m] pad2_le [OF d] pad2_le [OF h] last
          lit_Cons lit_Nil append_Cons append_Nil Cons_le_Cons less_irrefl simp_thms)
qed


theorem timestamp_order_witness:
  "four_digit_datetime jan_1st \<and> four_digit_datetime jan_2nd \<and>
   datetime_le jan_1st jan_2nd \<and> strftime jan_1st \<le> strftime jan_2nd \<and>
   \<not> datetime_le jan_2nd jan_1st \<and> \<not> strftime jan_2nd \<le> strftime jan_1st"
proof -
  have h1: "four_digit_datetime jan_1st" and h2: "four_digit_datetime jan_2nd"
    by (simp_all add: four_digit_datetime_def jan_1st_def jan_2nd_def)
  have le: "datetime_le jan_1st jan_2nd" and nle: "\<not> datetime_le jan_2nd jan_1st"
    by (simp_all add: datetime_le_def jan_1st_def jan_2nd_def)
  from timestamp_order [OF h1 h2] timestamp_order [OF h2 h1] h1 h2 le nle show ?thesis
    by simp
qed

section \<open>History store: loading\<close>

lemma setitem_fresh: "k \<notin> fst ` set d \<Longrightarrow> setitem k v d = d @ [(k, v)]"
  by (induction d) auto

lemma fold_setitem_distinct:
  "distinct (map fst acc @ map topic rows) \<Longrightarrow>
     fold (\<lambda>row h. setitem (topic row) (g row) h) rows acc =
     acc @ map (\<lambda>row. (topic row, g row)) rows"
proof (induction rows arbitrary: acc)
  case Nil
  then show ?case by simp
next
  case (Cons r rows)
  from Cons.prems have fresh: "topic r \<notin> fst ` set acc"
    by auto
  from Cons.prems have "distinct (map fst (acc @ [(topic r, g r)]) @ map topic rows)"
    by auto
  from Cons.IH [OF this] fresh show ?case
    by (simp add: setitem_fresh)
qed

lemma distinct_topics_of_user:
  "distinct (map (\<lambda>r. (username r, topic r)) rows) \<Longrightarrow>
     distinct (map topic (filter (\<lambda>r. username r = name) rows))"
proof (induction rows)
  case Nil
  then show ?case by simp
next
  case (Cons r rows)
  then show ?case by (auto simp: image_iff)
qed

lemma length_order_by: "length (order_by_timestamp_desc rows) = length rows"
  by (simp add: order_by_timestamp_desc_def)

lemma distinct_topics_order_by:
  "distinct (map topic rows) \<Longrightarrow> distinct (map topic (order_by_timestamp_desc rows))"
  by (simp add: distinct_map order_by_timestamp_desc_def)

lemma descending_order_by:
  "sorted_wrt (\<lambda>a b. timestamp b \<le> timestamp a) (order_by_timestamp_desc rows)"
proof -
  have "sorted (map timestamp (sort_key timestamp (rev rows)))"
    by (rule sorted_sort_key)
  then have "sorted_wrt (\<lambda>a b. timestamp a \<le> timestamp b) (sort_key timestamp (rev rows))"
    by (simp add: sorted_wrt_map)
  then show ?thesis
    by (simp add: order_by_timestamp_desc_def sorted_wrt_rev)
qed

lemma load_history_distinct:
  assumes "history_table (fs (lit ''prepclass.db'')) = Some rows"
    and "distinct (map (\<lambda>r. (username r, topic r)) rows)"
    and "scalar_values name"
  shows "load_history_from_db fs name =
           Inr (map (\<lambda>r. (topic r, columns r))
                  (order_by_timestamp_desc (filter (\<lambda>r. username r = name) rows)))"
proof -
  from assms(2) have "distinct (map topic (filter (\<lambda>r. username r = name) rows))"
    by (rule distinct_topics_of_user)
  then have "distinct (map topic (order_by_timestamp_desc (filter (\<lambda>r. username r = name) rows)))"
    by (rule distinct_topics_order_by)
  then have "distinct (map fst ([] :: (str \<times> history_entry) list) @
      map topic (order_by_timestamp_desc (filter (\<lambda>r. username r = name) rows)))"
    by simp
  from fold_setitem_distinct [OF this, of columns] assms(1,3) show ?thesis
    by (simp add: load_history_from_db_def select_history_def columns_def [abs_def]
          bindable_def)
qed

lemma jan_strings: "\<not> lit ''2024-01-02 09:00'' \<le> lit ''2024-01-01 10:00''"
  by (simp add: lit_def)

text \<open>
  On the files that \<open>init_db\<close> leaves in a working directory with "streamlit" in it,
  \<open>load_history_from_db\<close> raises for the user "mentor1"; and where the history table
  exists, it raises for the user name that consists of the lone surrogate \<open>U+D800\<close>.
\<close>

theorem load_history_counterexample:
  "load_history_from_db cloud_disk (lit ''mentor1'') = Inl OperationalError \<and>
   history_table (local_disk (lit ''prepclass.db'')) = Some [] \<and>
   load_history_from_db local_disk [0xD800] = Inl UnicodeEncodeError"
  by (simp add: load_history_from_db_def select_history_def cloud_disk_db no_tables_def
        local_disk_db bindable_def surrogate_not_scalar)

text \<open>
  C5, amended. Let the history table exist in "prepclass.db" and let no two of its rows
  share user and topic (which holds after any sequence of \<open>save_history_to_db\<close> calls from
  an empty table). For every user name without surrogate code points
  \<open>load_history_from_db\<close> returns a dictionary with one item per row of the user and no
  others: the key is the topic, the value holds the five other columns of the row. Its
  items are in descending order of the timestamp strings; an item stamped
  \<open>2024-01-02 09:00\<close> comes before an item stamped \<open>2024-01-01 10:00\<close>. For a user name
  that holds a surrogate it raises UnicodeEncodeError.
\<close>

theorem load_history_ordered:
  assumes "history_table (fs (lit ''prepclass.db'')) = Some rows"
    and "one_record_per_topic fs"
  shows "if scalar_values name
         then case load_history_from_db fs name of
           Inl e \<Rightarrow> False
         | Inr h \<Rightarrow>
             distinct (map fst h) \<and>
             set h = (\<lambda>r. (topic r, columns r)) ` {r \<in> set rows. username r = name} \<and>
             length h = length (filter (\<lambda>r. username r = name) rows) \<and>
             sorted_wrt (\<lambda>a b. timestamp (snd b) \<le> timestamp (snd a)) h \<and>
             (\<forall>i j. i < length h \<longrightarrow> j < length h \<longrightarrow>
                timestamp (snd (h ! i)) = lit ''2024-01-02 09:00'' \<longrightarrow>
                timestamp (snd (h ! j)) = lit ''2024-01-01 10:00'' \<longrightarrow> i < j)
         else load_history_from_db fs name = Inl UnicodeEncodeError"
proof (cases "scalar_values name")
  case False
  with assms(1) show ?thesis
    by (simp add: load_history_from_db_def select_history_def bindable_def)
next
  case True

  let ?mine = "order_by_timestamp_desc (filter (\<lambda>r. username r = name) rows)"
  let ?h = "map (\<lambda>r. (topic r, columns r)) ?mine"
  from assms have d: "distinct (map (\<lambda>r. (username r, topic r)) rows)"
    by (simp add: one_record_per_topic_def)
  have loaded: "load_history_from_db fs name = Inr ?h"
    using assms(1) d True by (rule load_history_distinct)
  have keys: "distinct (map fst ?h)"
    using distinct_topics_order_by [OF distinct_topics_of_user [OF d, of name]]
    by (simp add: comp_def)
  have items: "set ?h = (\<lambda>r. (topic r, columns r)) ` {r \<in> set rows. username r = name}"
    by (simp add: set_order_by)
  have len: "length ?h = length (filter (\<lambda>r. username r = name) rows)"
    by (simp add: length_order_by)
  have desc: "sorted_wrt (\<lambda>a b. timestamp (snd b) \<le> timestamp (snd a)) ?h"
    using descending_order_by [of "filter (\<lambda>r. username r = name) rows"]
    by (simp add: sorted_wrt_map columns_def)
  have first: "i < j" if "i < length ?h" "j < length ?h"
    "timestamp (snd (?h ! i)) = (lit ''2024-01-02 09:00'')"
    "timestamp (snd (?h ! j)) = (lit ''2024-01-01 10:00'')" for i j
  proof (rule ccontr)
    assume "\<not> i < j"
    with that(3,4) have "j < i" by (cases "i = j") auto
    from sorted_wrt_nth_less [OF desc this that(1)] that(3,4) jan_strings show False
      by simp
  qed
  from keys items len desc first True show ?thesis
    unfolding loaded by (simp only: sum.case if_True) blast
qed


lemma first_content_keys:
  "first_content (lit ''pre_class'') = Some (lit ''reading 1'')"
  "first_content (lit ''in_class'') = Some (lit ''plan 1'')"
  "first_content (lit ''post_class'') = Some (lit ''quiz 1'')"
  by (simp_all add: first_content_def)

lemma two_topics_db:
  "two_topics_disk (lit ''prepclass.db'') =
     \<lparr>users_table = Some [],
      history_table =
        Some [\<lparr>difficulty = lit ''Beginner'', timestamp = lit ''2024-01-01 10:00'',
                pre_class = lit ''reading 1'', in_class = lit ''plan 1'',
                post_class = lit ''quiz 1'',
                id_col = 1, username = lit ''mentor1'', topic = lit ''Recursion''\<rparr>,
              \<lparr>difficulty = lit ''Advanced'', timestamp = lit ''2024-01-02 09:00'',
                pre_class = lit ''reading 2'', in_class = lit ''plan 2'',
                post_class = lit ''quiz 2'',
                id_col = 2, username = lit ''mentor1'', topic = lit ''Sorting''\<rparr>],
      history_seq = 2\<rparr>"
  by (simp add: two_topics_disk_def save_history_to_db_def select_history_id_def
        insert_history_def getitem_def first_content_keys second_content_keys bindable_def
        local_disk_db strftime_jan_1st strftime_jan_2nd)

lemma two_topics_table:
  "history_table (two_topics_disk (lit ''prepclass.db'')) =
     Some [\<lparr>difficulty = lit ''Beginner'', timestamp = lit ''2024-01-01 10:00'',
             pre_class = lit ''reading 1'', in_class = lit ''plan 1'',
             post_class = lit ''quiz 1'',
             id_col = 1, username = lit ''mentor1'', topic = lit ''Recursion''\<rparr>,
           \<lparr>difficulty = lit ''Advanced'', timestamp = lit ''2024-01-02 09:00'',
             pre_class = lit ''reading 2'', in_class = lit ''plan 2'',
             post_class = lit ''quiz 2'',
             id_col = 2, username = lit ''mentor1'', topic = lit ''Sorting''\<rparr>]"
  by (simp add: two_topics_db)

lemma two_topics_loaded:
  "load_history_from_db two_topics_disk (lit ''mentor1'') =
     Inr [(lit ''Sorting'',
           \<lparr>difficulty = lit ''Advanced'', timestamp = lit ''2024-01-02 09:00'',
             pre_class = lit ''reading 2'', in_class = lit ''plan 2'',
             post_class = lit ''quiz 2''\<rparr>),
          (lit ''Recursion'',
           \<lparr>difficulty = lit ''Beginner'', timestamp = lit ''2024-01-01 10:00'',
             pre_class = lit ''reading 1'', in_class = lit ''plan 1'',
             post_class = lit ''quiz 1''\<rparr>)]"
  using jan_strings
  by (simp add: load_history_from_db_def select_history_def two_topics_db bindable_def
        order_by_timestamp_desc_def)

theorem load_history_ordered_witness:
  "history_table (two_topics_disk (lit ''prepclass.db'')) =
     Some [\<lparr>difficulty = lit ''Beginner'', timestamp = lit ''2024-01-01 10:00'',
             pre_class = lit ''reading 1'', in_class = lit ''plan 1'', post_class = lit ''quiz 1'',
             id_col = 1, username = lit ''mentor1'', topic = lit ''Recursion''\<rparr>,
           \<lparr>difficulty = lit ''Advanced'', timestamp = lit ''2024-01-02 09:00'',
             pre_class = lit ''reading 2'', in_class = lit ''plan 2'', post_class = lit ''quiz 2'',
             id_col = 2, username = lit ''mentor1'', topic = lit ''Sorting''\<rparr>] \<and>
   one_record_per_topic two_topics_disk \<and> scalar_values (lit ''mentor1'') \<and>
   (case load_history_from_db two_topics_disk (lit ''mentor1'') of
      Inl e \<Rightarrow> False
    | Inr h \<Rightarrow> map fst h = [lit ''Sorting'', lit ''Recursion''] \<and>
        map (\<lambda>item. timestamp (snd item)) h = [lit ''2024-01-02 09:00'', lit ''2024-01-01 10:00''])"
proof -
  have "one_record_per_topic local_disk"
    by (simp add: one_record_per_topic_def local_disk_history)
  then have h2: "one_record_per_topic two_topics_disk"
    unfolding two_topics_disk_def by (rule upserts_keep_invariant)
  from load_history_ordered [where fs = two_topics_disk, OF two_topics_table h2,
      of "lit ''mentor1''"]
    two_topics_table h2
  show ?thesis
    by (simp add: two_topics_loaded)
qed

section \<open>The main page: what reaches the database\<close>

lemma generate_materials_failed:
  assumes "gen doc (topic_input w) diff (api_key_input w) = Inl e"
  shows "snd (generate_materials gen now w name diff st fs) = (st, fs)"
  using assms
  by (cases doc) (auto simp: generate_materials_def Let_def split: sum.splits)

lemma load_selected_topic_files: "snd (snd (load_selected_topic sel hist st fs)) = fs"
  by (simp add: load_selected_topic_def Let_def split: sum.splits)

text \<open>
  C4. When one of the three generation calls of a run raises, \<open>save_history_to_db\<close> is
  not reached: the generation flow leaves the session and every database file as they
  were, and so does the whole run of \<open>main_app\<close> leave the files.
\<close>

theorem failed_generation_keeps_history:
  assumes "gen doc (topic_input w) diff (api_key_input w) = Inl e"
    and "diff = (case selected_difficulty st of None \<Rightarrow> (lit ''Beginner'') | Some d \<Rightarrow> d)"
  shows "snd (generate_materials gen now w name diff st fs) = (st, fs) \<and>
         snd (snd (main_app gen now w name st fs)) = fs \<and>
         (\<forall>user. load_history_from_db (snd (snd (main_app gen now w name st fs))) user =
                  load_history_from_db fs user)"
proof -
  have flow: "snd (generate_materials gen now w name diff st' fs) = (st', fs)" for st'
    using assms(1) by (rule generate_materials_failed)
  have "snd (snd (main_app gen now w name st fs)) = fs"
    using flow assms(2)
    by (auto simp: main_app_def Let_def load_selected_topic_files clear_history_def logout_def
             split: sum.splits option.splits)
  with flow show ?thesis by simp
qed


theorem failed_generation_keeps_history_witness:
  "failing_generator InClass (topic_input (sidebar GenerateBtn)) (lit ''Beginner'')
     (api_key_input (sidebar GenerateBtn)) = Inl ApiError \<and>
   (lit ''Beginner'') = (case selected_difficulty new_session of None \<Rightarrow> (lit ''Beginner'') | Some d \<Rightarrow> d) \<and>
   fst (main_app failing_generator jan_2nd (sidebar GenerateBtn) (lit ''mentor1'') new_session
          two_topics_disk) = ErrorShown ApiError \<and>
   snd (snd (main_app failing_generator jan_2nd (sidebar GenerateBtn) (lit ''mentor1'') new_session
          two_topics_disk)) = two_topics_disk"
proof -
  have h1: "failing_generator InClass (topic_input (sidebar GenerateBtn)) (lit ''Beginner'')
     (api_key_input (sidebar GenerateBtn)) = Inl ApiError"
    by (simp add: failing_generator_def)
  have h2: "(lit ''Beginner'') =
      (case selected_difficulty new_session of None \<Rightarrow> (lit ''Beginner'') | Some d \<Rightarrow> d)"
    by (simp add: new_session_def)
  have h3: "fst (main_app failing_generator jan_2nd (sidebar GenerateBtn) (lit ''mentor1'') new_session
          two_topics_disk) = ErrorShown ApiError"
    by (simp add: main_app_def new_session_def two_topics_loaded sidebar_def
          generate_materials_def failing_generator_def Let_def)
  from failed_generation_keeps_history [where gen = failing_generator and doc = InClass
      and w = "sidebar GenerateBtn" and diff = "(lit ''Beginner'')" and st = new_session
      and fs = two_topics_disk and now = jan_2nd and name = "(lit ''mentor1'')", OF h1 h2] h1 h2 h3
  show ?thesis
    by simp
qed

lemma main_app_clear:
  assumes "clicked w = ClearHistoryBtn"
  shows "snd (snd (main_app gen now w name st fs)) = fs"
    and "authenticated (fst (snd (main_app gen now w name st fs))) = authenticated st"
    and "session_username (fst (snd (main_app gen now w name st fs))) = session_username st"
    and "fst (main_app gen now w name st fs) = Reran \<Longrightarrow>
         fst (snd (main_app gen now w name st fs)) =
           st\<lparr>history := Some [], current_topic := Some None,
              displayed_content := Some nothing_displayed,
              selected_difficulty := Some (lit ''Beginner'')\<rparr>"
  using assms
  by (auto simp: main_app_def Let_def clear_history_def nothing_displayed_def
           split: sum.splits option.splits)

lemma main_app_first_run:
  assumes "history s0 = None" and "clicked w = NoButton"
  shows "history (fst (snd (main_app gen now w name s0 fs))) =
           (case load_history_from_db fs name of Inl e \<Rightarrow> None | Inr h \<Rightarrow> Some h)"
  using assms
  by (auto simp: main_app_def Let_def split: sum.splits option.splits)

text \<open>
  C9. A run of \<open>main_app\<close> with the "Clear History" button pressed leaves every database
  file as it was, so \<open>load_history_from_db\<close> returns for every user what it returned
  before. Of the session it leaves \<open>authenticated\<close> and the user name alone; when the
  run reaches the button, the session differs from the old one in the history cache, the
  current topic, the displayed content and the selected difficulty only. The first run in
  a new session, one without a history cache, then loads the same history as before the
  clearing.
\<close>

theorem clear_history_keeps_store:
  assumes "clicked w = ClearHistoryBtn"
    and "history s0 = None" and "clicked w0 = NoButton"
  shows "snd (snd (main_app gen now w name st fs)) = fs \<and>
         (\<forall>user. load_history_from_db (snd (snd (main_app gen now w name st fs))) user =
                  load_history_from_db fs user) \<and>
         authenticated (fst (snd (main_app gen now w name st fs))) = authenticated st \<and>
         session_username (fst (snd (main_app gen now w name st fs))) = session_username st \<and>
         (fst (main_app gen now w name st fs) = Reran \<longrightarrow>
            fst (snd (main_app gen now w name st fs)) =
              st\<lparr>history := Some [], current_topic := Some None,
                 displayed_content := Some nothing_displayed,
                 selected_difficulty := Some (lit ''Beginner'')\<rparr>) \<and>
         history (fst (snd (main_app gen0 now0 w0 name0 s0
                              (snd (snd (main_app gen now w name st fs)))))) =
           (case load_history_from_db fs name0 of Inl e \<Rightarrow> None | Inr h \<Rightarrow> Some h)"
  using main_app_clear [OF assms(1), of gen now name st fs]
    main_app_first_run [OF assms(2,3), of gen0 now0 name0 fs]
  by simp


theorem clear_history_keeps_store_witness:
  "clicked (sidebar ClearHistoryBtn) = ClearHistoryBtn \<and>
   history new_session = None \<and> clicked (sidebar NoButton) = NoButton \<and>
   main_app failing_generator jan_2nd (sidebar ClearHistoryBtn) (lit ''mentor1'') new_session
       two_topics_disk =
     (Reran,
      new_session\<lparr>history := Some [], current_topic := Some None,
         displayed_content := Some nothing_displayed,
         selected_difficulty := Some (lit ''Beginner'')\<rparr>,
      two_topics_disk) \<and>
   history (fst (snd (main_app failing_generator jan_2nd (sidebar NoButton) (lit ''mentor1'')
      new_session
      (snd (snd (main_app failing_generator jan_2nd (sidebar ClearHistoryBtn) (lit ''mentor1'')
                   new_session two_topics_disk)))))) =
     Some [((lit ''Sorting''),
            \<lparr>difficulty = (lit ''Advanced''), timestamp = (lit ''2024-01-02 09:00''),
              pre_class = (lit ''reading 2''), in_class = (lit ''plan 2''), post_class = (lit ''quiz 2'')\<rparr>),
           ((lit ''Recursion''),
            \<lparr>difficulty = (lit ''Beginner''), timestamp = (lit ''2024-01-01 10:00''),
              pre_class = (lit ''reading 1''), in_class = (lit ''plan 1''), post_class = (lit ''quiz 1'')\<rparr>)]"
proof -
  have h1: "clicked (sidebar ClearHistoryBtn) = ClearHistoryBtn"
    and h3: "clicked (sidebar NoButton) = NoButton"
    by (simp_all add: sidebar_def)
  have h2: "history new_session = None"
    by (simp add: new_session_def)
  have h4: "fst (main_app failing_generator jan_2nd (sidebar ClearHistoryBtn) (lit ''mentor1'')
      new_session two_topics_disk) = Reran"
    by (simp add: main_app_def new_session_def two_topics_loaded sidebar_def
          clear_history_def Let_def)
  note c = clear_history_keeps_store [where w = "sidebar ClearHistoryBtn" and ?s0.0 = new_session
      and ?w0.0 = "sidebar NoButton" and gen = failing_generator and now = jan_2nd
      and name = "(lit ''mentor1'')" and st = new_session and fs = two_topics_disk
      and ?gen0.0 = failing_generator and ?now0.0 = jan_2nd and ?name0.0 = "(lit ''mentor1'')",
      OF h1 h2 h3]
  from c have files: "snd (snd (main_app failing_generator jan_2nd (sidebar ClearHistoryBtn)
      (lit ''mentor1'') new_session two_topics_disk)) = two_topics_disk"
    by (rule conjunct1)
  from c h4 have session: "fst (snd (main_app failing_generator jan_2nd
      (sidebar ClearHistoryBtn) (lit ''mentor1'') new_session two_topics_disk)) =
        new_session\<lparr>history := Some [], current_topic := Some None,
          displayed_content := Some nothing_displayed,
          selected_difficulty := Some (lit ''Beginner'')\<rparr>"
    by blast
  from c have again: "history (fst (snd (main_app failing_generator jan_2nd (sidebar NoButton)
      (lit ''mentor1'') new_session
      (snd (snd (main_app failing_generator jan_2nd (sidebar ClearHistoryBtn) (lit ''mentor1'')
                   new_session two_topics_disk)))))) =
      (case load_history_from_db two_topics_disk (lit ''mentor1'') of
         Inl e \<Rightarrow> None | Inr h \<Rightarrow> Some h)"
    by blast
  from files session h4 have run: "main_app failing_generator jan_2nd (sidebar ClearHistoryBtn)
      (lit ''mentor1'') new_session two_topics_disk =
     (Reran,
      new_session\<lparr>history := Some [], current_topic := Some None,
         displayed_content := Some nothing_displayed,
         selected_difficulty := Some (lit ''Beginner'')\<rparr>,
      two_topics_disk)"
    by (simp add: prod_eq_iff)
  from again have "history (fst (snd (main_app failing_generator jan_2nd (sidebar NoButton)
      (lit ''mentor1'') new_session
      (snd (snd (main_app failing_generator jan_2nd (sidebar ClearHistoryBtn) (lit ''mentor1'')
                   new_session two_topics_disk)))))) =
     Some [((lit ''Sorting''),
            \<lparr>difficulty = (lit ''Advanced''), timestamp = (lit ''2024-01-02 09:00''),
              pre_class = (lit ''reading 2''), in_class = (lit ''plan 2''), post_class = (lit ''quiz 2'')\<rparr>),
           ((lit ''Recursion''),
            \<lparr>difficulty = (lit ''Beginner''), timestamp = (lit ''2024-01-01 10:00''),
              pre_class = (lit ''reading 1''), in_class = (lit ''plan 1''), post_class = (lit ''quiz 1'')\<rparr>)]"
    by (simp only: two_topics_loaded sum.case)
  with h1 h2 h3 run show ?thesis
    by blast
qed

section \<open>Export: the markdown bytes\<close>

lemma six_bits:
  fixes c :: nat
  shows "c = 64 * (c div 64) + c mod 64"
    and "c div 64 = 64 * (c div 4096) + c div 64 mod 64"
    and "c div 4096 = 64 * (c div 262144) + c div 4096 mod 64"
    and "c mod 64 < 64" and "c div 64 mod 64 < 64" and "c div 4096 mod 64 < 64"
proof -
  have a: "c div 4096 = c div 64 div 64" and b: "c div 262144 = c div 4096 div 64"
    by (simp_all add: div_mult2_eq [symmetric])
  show "c = 64 * (c div 64) + c mod 64" by simp
  show "c div 64 = 64 * (c div 4096) + c div 64 mod 64" unfolding a by simp
  show "c div 4096 = 64 * (c div 262144) + c div 4096 mod 64" unfolding b by simp
qed simp_all

lemma six_bits_le:
  fixes c :: nat
  shows "c mod 64 \<le> 63" and "c div 64 mod 64 \<le> 63" and "c div 4096 mod 64 \<le> 63"
  using six_bits(4,5,6) [of c] by linarith+

lemma decode_one_byte:
  assumes "c < 0x80"
  shows "utf8_decode ([c] @ rest) = decoded c (utf8_decode rest)"
  using assms by simp

lemma decode_two_bytes:
  assumes "\<not> c < 0x80" "c < 0x800"
  shows "utf8_decode ([0xC0 + c div 64, 0x80 + c mod 64] @ rest) = decoded c (utf8_decode rest)"
proof -
  from assms six_bits(1,4) [of c] have "2 \<le> c div 64" "c div 64 \<le> 31"
    by linarith+
  with six_bits(1) [of c] show ?thesis
    by (simp add: continuation_def six_bits_le)
qed

lemma decode_three_bytes:
  assumes "\<not> c < 0x800" "c < 0x10000" "\<not> surrogate c"
  shows "utf8_decode ([0xE0 + c div 4096, 0x80 + c div 64 mod 64, 0x80 + c mod 64] @ rest) =
           decoded c (utf8_decode rest)"
proof -
  note b = six_bits(1,2,4,5) [of c]
  from assms b have hi: "c div 4096 \<le> 15"
    by linarith
  from assms b have lo: "c div 4096 = 0 \<longrightarrow> 32 \<le> c div 64 mod 64"
    by linarith
  from assms b have sur: "c div 4096 = 13 \<longrightarrow> c div 64 mod 64 \<le> 31"
    unfolding surrogate_def by linarith
  have val: "c div 4096 * 4096 + c div 64 mod 64 * 64 + c mod 64 = c"
    using b by linarith
  from hi lo sur val show ?thesis
    by (simp add: continuation_def six_bits_le)
qed

lemma decode_four_bytes:
  assumes "\<not> c < 0x10000" "c < 0x110000"
  shows "utf8_decode ([0xF0 + c div 262144, 0x80 + c div 4096 mod 64, 0x80 + c div 64 mod 64,
                       0x80 + c mod 64] @ rest) =
           decoded c (utf8_decode rest)"
proof -
  note b = six_bits [of c]
  from assms b have hi: "c div 262144 \<le> 4"
    by linarith
  from assms b have lo: "c div 262144 = 0 \<longrightarrow> 16 \<le> c div 4096 mod 64"
    by linarith
  from assms b have top: "c div 262144 = 4 \<longrightarrow> c div 4096 mod 64 \<le> 15"
    by linarith
  have val: "c div 262144 * 262144 + c div 4096 mod 64 * 4096 + c div 64 mod 64 * 64 +
             c mod 64 = c"
    using b by linarith
  from hi lo top val show ?thesis
    by (simp add: continuation_def six_bits_le)
qed

lemma decode_encoded_char:
  assumes "c < 0x110000" "\<not> surrogate c"
  shows "\<exists>bs. utf8_encode_char c = Inr bs \<and>
           utf8_decode (bs @ rest) = decoded c (utf8_decode rest)"
proof -
  consider "c < 0x80" | "\<not> c < 0x80" "c < 0x800" | "\<not> c < 0x800" "c < 0x10000"
    | "\<not> c < 0x10000"
    by linarith
  then show ?thesis
  proof cases
    case 1
    with decode_one_byte [of c rest] show ?thesis
      by (simp add: utf8_encode_char_def)
  next
    case 2
    with decode_two_bytes [of c rest] show ?thesis
      by (simp add: utf8_encode_char_def)
  next
    case 3
    with decode_three_bytes [of c rest] assms(2) show ?thesis
      by (simp add: utf8_encode_char_def)
  next
    case 4
    with decode_four_bytes [of c rest] assms(1) show ?thesis
      by (simp add: utf8_encode_char_def)
  qed
qed

lemma decode_encoded:
  "scalar_values s \<Longrightarrow> \<exists>bs. utf8_encode s = Inr bs \<and> utf8_decode bs = Inr s"
proof (induction s)
  case Nil
  then show ?case by simp
next
  case (Cons c s)
  then obtain rest where rest: "utf8_encode s = Inr rest" "utf8_decode rest = Inr s"
    by (auto simp: scalar_values_def)
  from Cons.prems have "c < 0x110000" "\<not> surrogate c"
    by (simp_all add: scalar_values_def)
  from decode_encoded_char [OF this, of rest] obtain bs where
    "utf8_encode_char c = Inr bs" "utf8_decode (bs @ rest) = decoded c (utf8_decode rest)"
    by blast
  with rest show ?case
    by (simp add: decoded_def)
qed

lemma encode_surrogate:
  "is_str s \<Longrightarrow> \<not> scalar_values s \<Longrightarrow> utf8_encode s = Inl UnicodeEncodeError"
proof (induction s)
  case Nil
  then show ?case by (simp add: scalar_values_def)
next
  case (Cons c s)
  show ?case
  proof (cases "surrogate c")
    case True
    then show ?thesis
      by (simp add: utf8_encode_char_def surrogate_def)
  next
    case False
    with Cons.prems have c: "c < 0x110000" and s: "is_str s" "\<not> scalar_values s"
      by (simp_all add: is_str_def scalar_values_def)
    from decode_encoded_char [OF c False, of "[]"] obtain bs where
      "utf8_encode_char c = Inr bs"
      by blast
    with Cons.IH [OF s] show ?thesis
      by simp
  qed
qed

text \<open>
  The string that consists of the lone surrogate \<open>U+D800\<close> is a Python \<open>str\<close>, and
  \<open>create_markdown\<close> raises on it instead of returning bytes.
\<close>

theorem markdown_surrogate:
  "is_str [0xD800] \<and> create_markdown [0xD800] [] = Inl UnicodeEncodeError"
  by (simp add: is_str_def create_markdown_def utf8_encode_char_def surrogate_def)

text \<open>
  C7, amended. For every string without surrogate code points \<open>create_markdown\<close> returns
  bytes, and decoding them as UTF-8 gives the string back. For a string that holds a
  surrogate code point \<open>create_markdown\<close> raises UnicodeEncodeError.
\<close>

theorem markdown_round_trip:
  assumes "is_str s"
  shows "if scalar_values s
         then \<exists>bs. create_markdown s filename = Inr bs \<and> utf8_decode bs = Inr s
         else create_markdown s filename = Inl UnicodeEncodeError"
  using assms decode_encoded [of s] encode_surrogate [of s]
  by (simp add: create_markdown_def)


theorem markdown_round_trip_witness:
  "is_str [0x41, 0xE9, 0x20AC, 0x1F600] \<and> scalar_values [0x41, 0xE9, 0x20AC, 0x1F600] \<and>
   (\<exists>bs. create_markdown [0x41, 0xE9, 0x20AC, 0x1F600] [] = Inr bs \<and>
         utf8_decode bs = Inr [0x41, 0xE9, 0x20AC, 0x1F600]) \<and>
   create_markdown [0x41, 0xE9, 0x20AC, 0x1F600] [] =
     Inr [65, 195, 169, 226, 130, 172, 240, 159, 152, 128]"
proof -
  have h1: "is_str [0x41, 0xE9, 0x20AC, 0x1F600]"
    by (simp add: is_str_def)
  have h2: "scalar_values [0x41, 0xE9, 0x20AC, 0x1F600]"
    by (simp add: scalar_values_def surrogate_def)
  have h3: "create_markdown [0x41, 0xE9, 0x20AC, 0x1F600] [] =
      Inr [65, 195, 169, 226, 130, 172, 240, 159, 152, 128]"
    by (simp add: create_markdown_def utf8_encode_char_def surrogate_def)
  from markdown_round_trip [OF h1, of "[]"] h1 h2 h3 show ?thesis
    by (simp only: if_True simp_thms)
qed

section \<open>Export: the PDF\<close>

lemma split_at_not_Nil: "split_at sep line s \<noteq> []"
  by (induction s arbitrary: line) auto

lemma join_Cons: "ls \<noteq> [] \<Longrightarrow> join sep (l # ls) = l @ sep # join sep ls"
  by (cases ls) simp_all

lemma join_split_at: "join sep (split_at sep line s) = rev line @ s"
  by (induction s arbitrary: line) (simp_all add: join_Cons split_at_not_Nil)

lemma split_at_no_sep:
  "sep \<notin> set line \<Longrightarrow> l \<in> set (split_at sep line s) \<Longrightarrow> sep \<notin> set l"
proof (induction s arbitrary: line)
  case Nil
  then show ?case by simp
next
  case (Cons c s)
  show ?case
  proof (cases "c = sep")
    case True
    with Cons.prems have "l = rev line \<or> l \<in> set (split_at sep [] s)"
      by simp
    then show ?thesis
    proof
      assume "l = rev line"
      with Cons.prems(1) show ?thesis by simp
    next
      assume "l \<in> set (split_at sep [] s)"
      with Cons.IH [of "[]"] show ?thesis by simp
    qed
  next
    case False
    with Cons.prems have "sep \<notin> set (c # line)" "l \<in> set (split_at sep (c # line) s)"
      by simp_all
    then show ?thesis by (rule Cons.IH)
  qed
qed

lemma clean_text_nth:
  "k < length text \<Longrightarrow> clean_text text ! k = (if text ! k < 256 then text ! k else 63)"
  by (simp add: clean_text_def)

text \<open>
  The line that consists of a blank and a hash mark neither ends with a colon nor starts
  with a hash mark, and it is written as a heading.
\<close>

theorem pdf_heading_counterexample:
  "create_pdf [32, 35] [] = [Heading [32, 35]] \<and>
   \<not> endswith [32, 35] 58 \<and> \<not> startswith [32, 35] 35"
  by (simp add: create_pdf_def split_def is_heading_def strip_def isspace_def endswith_def
        startswith_def clean_text_def)

text \<open>
  C8, amended. \<open>create_pdf\<close> splits the content at the line breaks and writes one text
  per line, in order. A line is written as a heading exactly when, with the white space
  at both of its ends stripped, it ends with a colon or starts with a hash mark; every
  other line is written as body text. In the text written, each character that latin-1
  does not have is replaced by a question mark and every other character is kept.
\<close>

theorem pdf_lines:
  "join 10 (split content 10) = content \<and>
   (\<forall>line \<in> set (split content 10). 10 \<notin> set line) \<and>
   length (create_pdf content filename) = length (split content 10) \<and>
   (\<forall>i < length (split content 10).
      create_pdf content filename ! i =
        (if endswith (strip (split content 10 ! i)) 58 \<or>
            startswith (strip (split content 10 ! i)) 35
         then Heading (clean_text (split content 10 ! i))
         else Body (clean_text (split content 10 ! i)))) \<and>
   (\<forall>t. length (clean_text t) = length t \<and>
      (\<forall>k < length t. clean_text t ! k = (if t ! k < 256 then t ! k else 63)))"
proof -
  have a: "join 10 (split content 10) = content"
    by (simp add: split_def join_split_at)
  have b: "\<forall>line \<in> set (split content 10). 10 \<notin> set line"
    using split_at_no_sep [of 10 "[]" _ content] by (auto simp: split_def)
  have c: "length (create_pdf content filename) = length (split content 10)"
    by (simp add: create_pdf_def)
  have d: "create_pdf content filename ! i =
        (if endswith (strip (split content 10 ! i)) 58 \<or>
            startswith (strip (split content 10 ! i)) 35
         then Heading (clean_text (split content 10 ! i))
         else Body (clean_text (split content 10 ! i)))"
    if "i < length (split content 10)" for i
    using that by (auto simp: create_pdf_def is_heading_def startswith_def)
  have e: "length (clean_text t) = length t \<and>
      (\<forall>k < length t. clean_text t ! k = (if t ! k < 256 then t ! k else 63))"
    for t
    by (simp add: clean_text_def)
  from a b c d e show ?thesis
    by blast
qed

theorem pdf_lines_witness:
  "split [73, 58, 10, 32, 35, 120, 32, 10, 8364, 49] 10 = [[73, 58], [32, 35, 120, 32], [8364, 49]] \<and>
   create_pdf [73, 58, 10, 32, 35, 120, 32, 10, 8364, 49] [] =
     [Heading [73, 58], Heading [32, 35, 120, 32], Body [63, 49]] \<and>
   join 10 (split [73, 58, 10, 32, 35, 120, 32, 10, 8364, 49] 10) =
     [73, 58, 10, 32, 35, 120, 32, 10, 8364, 49] \<and>
   length (create_pdf [73, 58, 10, 32, 35, 120, 32, 10, 8364, 49] []) = 3"
proof -
  have s: "split [73, 58, 10, 32, 35, 120, 32, 10, 8364, 49] 10 =
      [[73, 58], [32, 35, 120, 32], [8364, 49]]"
    by (simp add: split_def)
  have p: "create_pdf [73, 58, 10, 32, 35, 120, 32, 10, 8364, 49] [] =
     [Heading [73, 58], Heading [32, 35, 120, 32], Body [63, 49]]"
    by (simp add: create_pdf_def s is_heading_def strip_def isspace_def endswith_def
          startswith_def clean_text_def)
  from pdf_lines [of "[73, 58, 10, 32, 35, 120, 32, 10, 8364, 49]" "[]"] s p show ?thesis
    by simp
qed

end
